theory Spec2Isabelle
  imports Main "HOL-Library.Multiset"
begin

section \<open>Strings\<close>

text \<open>
  A JavaScript string is a sequence of UTF-16 code units and \<^verbatim>\<open>length\<close> counts them.
  Here a string is a HOL \<^typ>\<open>string\<close>; a \<^typ>\<open>char\<close> stands for one code unit
  below 256. \<^verbatim>\<open>String.prototype.trim\<close> strips white space and line terminators
  from both ends; the ones below 256 are TAB, LF, VT, FF, CR, SPACE and NBSP.
\<close>

definition isWhiteSpace :: "char \<Rightarrow> bool" where
  "isWhiteSpace ch = ((of_char ch :: nat) \<in> {9, 10, 11, 12, 13, 32, 160})"

definition trim :: "string \<Rightarrow> string" where
  "trim s = rev (dropWhile isWhiteSpace (rev (dropWhile isWhiteSpace s)))"

text \<open>The character class \<^verbatim>\<open>[A-Za-z0-9]\<close>.\<close>

definition isAlnum :: "char \<Rightarrow> bool" where
  "isAlnum ch =
     (let n = (of_char ch :: nat)
      in (65 \<le> n \<and> n \<le> 90) \<or> (97 \<le> n \<and> n \<le> 122) \<or> (48 \<le> n \<and> n \<le> 57))"

text \<open>\<^verbatim>\<open>s.includes(sub)\<close>: \<open>sub\<close> occurs in \<open>s\<close> at some offset.\<close>

definition includes_str :: "string \<Rightarrow> string \<Rightarrow> bool" where
  "includes_str s sub = list_ex (\<lambda>i. take (length sub) (drop i s) = sub) [0..<Suc (length s)]"

section \<open>Validation (src/lib/validation.ts)\<close>

record ValidationResult =
  valid :: bool
  error :: "string option"

text \<open>
  \<^verbatim>\<open>validator.isURL(url, {protocols: ['http','https'], require_protocol: true,
  require_valid_protocol: true})\<close> belongs to the validator package, not to the
  repository; it is the parameter \<open>isURL\<close>.
\<close>

definition validateUrl :: "(string \<Rightarrow> bool) \<Rightarrow> string \<Rightarrow> ValidationResult" where
  "validateUrl isURL url =
     (if url = [] \<or> length (trim url) = 0 then
        \<lparr>valid = False, error = Some ''URL is required''\<rparr>
      else if \<not> isURL url then
        \<lparr>valid = False,
         error = Some ''Invalid URL format. Must start with http:// or https://''\<rparr>
      else if length url > 2048 then
        \<lparr>valid = False, error = Some ''URL is too long (max 2048 characters)''\<rparr>
      else \<lparr>valid = True, error = None\<rparr>)"

text \<open>
  \<^verbatim>\<open>/^[A-Za-z0-9]{6,8}$/.test(code)\<close>: without flags the anchors are the two ends of
  the input, so the test holds exactly for 6 to 8 characters, all of the class.
\<close>

definition codeRegex_test :: "string \<Rightarrow> bool" where
  "codeRegex_test c = (6 \<le> length c \<and> length c \<le> 8 \<and> list_all isAlnum c)"

definition validateCode :: "string \<Rightarrow> ValidationResult" where
  "validateCode c =
     (if c = [] \<or> length (trim c) = 0 then
        \<lparr>valid = False, error = Some ''Code is required''\<rparr>
      else if \<not> codeRegex_test c then
        (if length c < 6 then
           \<lparr>valid = False, error = Some ''Code must be at least 6 characters long''\<rparr>
         else if length c > 8 then
           \<lparr>valid = False, error = Some ''Code must be at most 8 characters long''\<rparr>
         else
           \<lparr>valid = False,
            error = Some ''Code can only contain letters (A-Z, a-z) and numbers (0-9)''\<rparr>)
      else \<lparr>valid = True, error = None\<rparr>)"

text \<open>
  An optional argument is a \<^typ>\<open>string option\<close>. \<^verbatim>\<open>if (customCode)\<close> is
  JavaScript truthiness: it fails for \<^verbatim>\<open>undefined\<close> and for the empty string.
\<close>

definition truthy :: "string option \<Rightarrow> bool" where
  "truthy v = (case v of None \<Rightarrow> False | Some s \<Rightarrow> s \<noteq> [])"

definition validateCreateLinkRequest ::
  "(string \<Rightarrow> bool) \<Rightarrow> string \<Rightarrow> string option \<Rightarrow> ValidationResult" where
  "validateCreateLinkRequest isURL url customCode =
     (let urlValidation = validateUrl isURL url in
      if \<not> valid urlValidation then urlValidation
      else if truthy customCode then
        (let codeValidation = validateCode (the customCode) in
         if \<not> valid codeValidation then codeValidation
         else \<lparr>valid = True, error = None\<rparr>)
      else \<lparr>valid = True, error = None\<rparr>)"

section \<open>Code generation (src/lib/utils.ts)\<close>

text \<open>
  The random draws one request makes are a sequence \<open>rnd\<close>; a generator takes the
  sequence and hands back what is left of it.
\<close>

type_synonym random = "nat \<Rightarrow> nat"

text \<open>
  Modelled from the spec: \<^verbatim>\<open>customAlphabet(alphabet, size)\<close> is nanoid's, not in the
  repository. Its generator draws \<open>n\<close> characters from the alphabet \<open>abc\<close>, one per random
  draw (the spec: "draws a 6-character code uniformly from the 62-character
  alphanumeric alphabet").
\<close>

definition customAlphabet :: "string \<Rightarrow> nat \<Rightarrow> random \<Rightarrow> string \<times> random" where
  "customAlphabet abc n rnd =
     (map (\<lambda>i. abc ! (rnd i mod length abc)) [0..<n], \<lambda>i. rnd (i + n))"

definition alphabet :: string where
  "alphabet = ''ABCDEFGHIJKLMNOPQRSTUVWXYZabcdefghijklmnopqrstuvwxyz0123456789''"

definition generateShortCode :: "random \<Rightarrow> string \<times> random" where
  "generateShortCode rnd = customAlphabet alphabet 6 rnd"

text \<open>
  The loop \<^verbatim>\<open>for (let attempt = 1; attempt <= maxAttempts; attempt++)\<close> of
  \<^verbatim>\<open>generateUniqueShortCode\<close>; \<^verbatim>\<open>null\<close> is \<open>None\<close>. The two console messages
  are not modelled.
\<close>

function generateUniqueShortCode_loop ::
  "(string \<Rightarrow> bool) \<Rightarrow> int \<Rightarrow> int \<Rightarrow> random \<Rightarrow> string option" where
  "generateUniqueShortCode_loop checkExists maxAttempts attempt rnd =
     (if attempt \<le> maxAttempts then
        (case generateShortCode rnd of
           (c, rnd') \<Rightarrow>
             if \<not> checkExists c then Some c
             else generateUniqueShortCode_loop checkExists maxAttempts (attempt + 1) rnd')
      else None)"
  by pat_completeness auto
termination
  by (relation "measure (\<lambda>(checkExists, maxAttempts, attempt, rnd). nat (maxAttempts + 1 - attempt))")
    auto

definition generateUniqueShortCode :: "(string \<Rightarrow> bool) \<Rightarrow> int \<Rightarrow> random \<Rightarrow> string option" where
  "generateUniqueShortCode checkExists maxAttempts rnd =
     generateUniqueShortCode_loop checkExists maxAttempts 1 rnd"

text \<open>The candidates the loop generates, in order: the first \<open>n\<close> codes drawn from \<open>rnd\<close>.\<close>

fun candidates :: "random \<Rightarrow> nat \<Rightarrow> string list" where
  "candidates rnd 0 = []"
| "candidates rnd (Suc n) = fst (generateShortCode rnd) # candidates (snd (generateShortCode rnd)) n"

section \<open>The links table (src/lib/schema.ts)\<close>

text \<open>
  A row of \<^verbatim>\<open>links\<close>. The type parameter is the type of the two time stamps: an
  instant in a row (\<^verbatim>\<open>Link\<close>), its ISO-8601 text in a JSON body
  (\<^verbatim>\<open>SerializedLink\<close>). The column \<^verbatim>\<open>id\<close> is the field \<open>id_col\<close>.
\<close>

type_synonym timestamp = int

record 't link =
  id_col :: int
  code :: string
  targetUrl :: string
  totalClicks :: int
  lastClickedAt :: "'t option"
  createdAt :: 't

type_synonym Link = "timestamp link"

text \<open>\<open>ISO t\<close> is \<^verbatim>\<open>date.toISOString()\<close> of the instant \<open>t\<close>; the text itself is the runtime's.\<close>

datatype isostring = ISO timestamp

type_synonym SerializedLink = "isostring link"

definition serializeLink :: "Link \<Rightarrow> SerializedLink" where
  "serializeLink l =
     \<lparr>id_col = id_col l, code = code l, targetUrl = targetUrl l, totalClicks = totalClicks l,
      lastClickedAt = (case lastClickedAt l of Some t \<Rightarrow> Some (ISO t) | None \<Rightarrow> None),
      createdAt = ISO (createdAt l)\<rparr>"

definition serializeLinks :: "Link list \<Rightarrow> SerializedLink list" where
  "serializeLinks ls = map serializeLink ls"

text \<open>
  Modelled from the spec: the storage engine behind \<^verbatim>\<open>db\<close> (PostgreSQL, reached
  through drizzle) is not in the repository; the schema and the queries are. The table
  is the list of its rows in insertion order, with the sequence behind the \<^verbatim>\<open>serial\<close>
  column. Each statement is one step of the engine. A statement that fails raises an
  error, of one of four kinds. The constraints are the schema's:
  \<^verbatim>\<open>code varchar(8) unique\<close>, and \<^verbatim>\<open>integer\<close> (32 bits, signed) for \<^verbatim>\<open>id\<close> and
  \<^verbatim>\<open>total_clicks\<close>; an insert that fails on a constraint has already taken its
  sequence value. Rows of equal \<^verbatim>\<open>created_at\<close> come out of an \<^verbatim>\<open>ORDER BY\<close> in the
  order of the engine's scan, which is the parameter \<open>scan\<close>: the position of each row
  in it.
\<close>

record db =
  rows :: "Link list"
  nextId :: int

datatype dberror = UniqueViolation | ValueTooLong | SequenceExhausted | IntegerOutOfRange

text \<open>
  What the handler catches is the error drizzle throws for the engine's. The text of its
  \<^verbatim>\<open>message\<close> is fixed neither by the repository nor by the spec; it is the parameter
  \<open>thrown\<close>, a function of the engine's error and of the code and the URL of the insert
  that failed.
\<close>

type_synonym thrown = "dberror \<Rightarrow> string \<Rightarrow> string \<Rightarrow> string"

definition int4_max :: int where
  "int4_max = 2147483647"

text \<open>\<^verbatim>\<open>db.select().from(links).where(eq(links.code, c)).limit(1)\<close>\<close>

definition selectByCode :: "db \<Rightarrow> string \<Rightarrow> Link list" where
  "selectByCode d c = take 1 (filter (\<lambda>l. code l = c) (rows d))"

text \<open>
  \<^verbatim>\<open>db.select().from(links).orderBy(links.createdAt)\<close>: ascending, the rows of equal
  \<open>createdAt\<close> in the order of the scan.
\<close>

definition selectOrderByCreatedAt :: "(Link \<Rightarrow> int) \<Rightarrow> db \<Rightarrow> Link list" where
  "selectOrderByCreatedAt scan d = sort_key createdAt (sort_key scan (rows d))"

text \<open>
  \<^verbatim>\<open>db.insert(links).values({code, targetUrl, totalClicks, lastClickedAt}).returning()\<close>;
  \<^verbatim>\<open>id\<close> and \<^verbatim>\<open>createdAt\<close> take their defaults, the next sequence value and the
  current time. The result is the inserted row (\<^verbatim>\<open>newLink[0]\<close>).
\<close>

definition insertLink ::
  "db \<Rightarrow> string \<Rightarrow> string \<Rightarrow> int \<Rightarrow> timestamp option \<Rightarrow> timestamp \<Rightarrow> (dberror \<times> db) + (Link \<times> db)" where
  "insertLink d c url clicks clicked now =
     (if nextId d > int4_max then
        Inl (SequenceExhausted, d)
      else if length c > 8 then
        Inl (ValueTooLong, d\<lparr>nextId := nextId d + 1\<rparr>)
      else if list_ex (\<lambda>l. code l = c) (rows d) then
        Inl (UniqueViolation, d\<lparr>nextId := nextId d + 1\<rparr>)
      else
        (let row = \<lparr>id_col = nextId d, code = c, targetUrl = url, totalClicks = clicks,
                    lastClickedAt = clicked, createdAt = now\<rparr>
         in Inr (row, \<lparr>rows = rows d @ [row], nextId = nextId d + 1\<rparr>)))"

text \<open>
  \<^verbatim>\<open>db.update(links).set({totalClicks: sql`${links.totalClicks} + 1`,
  lastClickedAt: new Date()}).where(eq(links.code, c))\<close>: the engine computes the new
  count from the row it updates.
\<close>

definition clicked :: "timestamp \<Rightarrow> Link \<Rightarrow> Link" where
  "clicked now l = l\<lparr>totalClicks := totalClicks l + 1, lastClickedAt := Some now\<rparr>"

definition updateClick :: "db \<Rightarrow> string \<Rightarrow> timestamp \<Rightarrow> dberror + db" where
  "updateClick d c now =
     (if list_ex (\<lambda>l. code l = c \<and> totalClicks l + 1 > int4_max) (rows d) then
        Inl IntegerOutOfRange
      else Inr (d\<lparr>rows := map (\<lambda>l. if code l = c then clicked now l else l) (rows d)\<rparr>))"

text \<open>\<^verbatim>\<open>db.delete(links).where(eq(links.code, c))\<close>\<close>

definition deleteByCode :: "db \<Rightarrow> string \<Rightarrow> db" where
  "deleteByCode d c = d\<lparr>rows := filter (\<lambda>l. code l \<noteq> c) (rows d)\<rparr>"

section \<open>Responses\<close>

datatype body =
  LinkJson SerializedLink
  | LinksJson "SerializedLink list"
  | ErrorJson string
  | DeletedJson string string
  | Text string
  | Location string

record response =
  status :: nat
  body :: body

section \<open>GET /:code (src/app/[code]/route.ts)\<close>

text \<open>
  The handler awaits two statements, the select and the update; statements of other
  requests may run between them. \<open>redirect_lookup\<close> is the handler up to the first,
  \<open>redirect_finish\<close> the rest, run on the table as it is by then with the row \<open>l\<close> the
  select returned. \<open>GET_code\<close> is the handler run with nothing in between.

  \<^verbatim>\<open>NextResponse.redirect(url, {status: 302})\<close> is Next.js's, not in the repository. It
  parses its argument with \<^verbatim>\<open>new URL\<close>; the \<^verbatim>\<open>Location\<close> header is the text of the
  parsed URL, and an argument that does not parse makes it throw. The parser is the
  parameter \<open>parseURL\<close>, \<open>None\<close> where \<^verbatim>\<open>new URL\<close> throws. The call stands inside the
  \<^verbatim>\<open>try\<close>, after the awaited update: when it throws, the \<^verbatim>\<open>catch\<close> answers 500 and
  the update has been made.
\<close>

definition redirect_lookup :: "db \<Rightarrow> string \<Rightarrow> response + Link" where
  "redirect_lookup d c =
     (case selectByCode d c of
        [] \<Rightarrow> Inl \<lparr>status = 404, body = Text ''Not Found''\<rparr>
      | l # ls \<Rightarrow> Inr l)"

definition redirect_finish ::
  "(string \<Rightarrow> string option) \<Rightarrow> db \<Rightarrow> string \<Rightarrow> Link \<Rightarrow> timestamp \<Rightarrow> response \<times> db" where
  "redirect_finish parseURL d c l now =
     (case updateClick d c now of
        Inl e \<Rightarrow> (\<lparr>status = 500, body = Text ''Internal Server Error''\<rparr>, d)
      | Inr d' \<Rightarrow>
          (case parseURL (targetUrl l) of
             None \<Rightarrow> (\<lparr>status = 500, body = Text ''Internal Server Error''\<rparr>, d')
           | Some href \<Rightarrow> (\<lparr>status = 302, body = Location href\<rparr>, d')))"

definition GET_code ::
  "(string \<Rightarrow> string option) \<Rightarrow> db \<Rightarrow> string \<Rightarrow> timestamp \<Rightarrow> response \<times> db" where
  "GET_code parseURL d c now =
     (case redirect_lookup d c of
        Inl r \<Rightarrow> (r, d)
      | Inr l \<Rightarrow> redirect_finish parseURL d c l now)"

section \<open>POST /api/links and GET /api/links (src/app/api/links/route.ts)\<close>

text \<open>
  \<open>POST_check\<close> is the handler up to the code to use (validation, then the existence
  check or the generation), \<open>POST_insert\<close> the insert and the \<^verbatim>\<open>catch\<close> around it,
  run on the table as it is by then. \<open>POST\<close> is the handler run with nothing in between.
\<close>

definition POST_check ::
  "(string \<Rightarrow> bool) \<Rightarrow> random \<Rightarrow> db \<Rightarrow> string \<Rightarrow> string option \<Rightarrow> response + string" where
  "POST_check isURL rnd d url customCode =
     (let validation = validateCreateLinkRequest isURL url customCode in
      if \<not> valid validation then
        Inl \<lparr>status = 400, body = ErrorJson (the (error validation))\<rparr>
      else if truthy customCode then
        (if selectByCode d (the customCode) \<noteq> [] then
           Inl \<lparr>status = 409, body = ErrorJson ''Code already exists''\<rparr>
         else Inr (the customCode))
      else
        (case generateUniqueShortCode (\<lambda>c. selectByCode d c \<noteq> []) 3 rnd of
           None \<Rightarrow>
             Inl \<lparr>status = 500,
                  body = ErrorJson ''Failed to generate unique code. Please try again.''\<rparr>
         | Some generatedCode \<Rightarrow>
             if generatedCode = [] then
               Inl \<lparr>status = 500,
                    body = ErrorJson ''Failed to generate unique code. Please try again.''\<rparr>
             else Inr generatedCode))"

definition POST_insert ::
  "thrown \<Rightarrow> db \<Rightarrow> string \<Rightarrow> string \<Rightarrow> timestamp \<Rightarrow> response \<times> db" where
  "POST_insert thrown d codeToUse url now =
     (case insertLink d codeToUse url 0 None now of
        Inr (l, d') \<Rightarrow> (\<lparr>status = 201, body = LinkJson (serializeLink l)\<rparr>, d')
      | Inl (e, d') \<Rightarrow>
          if includes_str (thrown e codeToUse url) ''unique'' then
            (\<lparr>status = 409, body = ErrorJson ''Code already exists''\<rparr>, d')
          else (\<lparr>status = 500, body = ErrorJson ''Internal server error''\<rparr>, d'))"

definition POST ::
  "thrown \<Rightarrow> (string \<Rightarrow> bool) \<Rightarrow> random \<Rightarrow> db \<Rightarrow> string \<Rightarrow> string option \<Rightarrow> timestamp \<Rightarrow>
     response \<times> db" where
  "POST thrown isURL rnd d url customCode now =
     (case POST_check isURL rnd d url customCode of
        Inl r \<Rightarrow> (r, d)
      | Inr codeToUse \<Rightarrow> POST_insert thrown d codeToUse url now)"

definition GET_links :: "(Link \<Rightarrow> int) \<Rightarrow> db \<Rightarrow> response \<times> db" where
  "GET_links scan d =
     (\<lparr>status = 200, body = LinksJson (serializeLinks (selectOrderByCreatedAt scan d))\<rparr>, d)"

section \<open>GET and DELETE /api/links/:code (src/app/api/links/[code]/route.ts)\<close>

definition GET_link :: "db \<Rightarrow> string \<Rightarrow> response \<times> db" where
  "GET_link d c =
     (case selectByCode d c of
        [] \<Rightarrow> (\<lparr>status = 404, body = ErrorJson ''Link not found''\<rparr>, d)
      | foundLink # ls \<Rightarrow> (\<lparr>status = 200, body = LinkJson (serializeLink foundLink)\<rparr>, d))"

definition DELETE_link :: "db \<Rightarrow> string \<Rightarrow> response \<times> db" where
  "DELETE_link d c =
     (if selectByCode d c = [] then
        (\<lparr>status = 404, body = ErrorJson ''Link not found''\<rparr>, d)
      else
        (\<lparr>status = 200, body = DeletedJson ''Link deleted successfully'' c\<rparr>,
         deleteByCode d c))"

section \<open>Concurrent visits of one code\<close>

text \<open>
  Several requests \<^verbatim>\<open>GET /:code\<close> for the same code \<open>c\<close> run at once. Each is at one
  of three places: before its select, between its select and its update (holding the
  row the select returned), or answered. A schedule names, event by event, the request
  that runs its next statement; an event whose request is not at that place does nothing.
  \<open>Done u r\<close> is a request answered with \<open>r\<close>; \<open>u\<close> records whether its update was made,
  which the answer alone does not tell.
\<close>

datatype visit = Pending | Looked Link | Done bool response

datatype event = Lookup nat | Finish nat timestamp

definition updateMade :: "db \<Rightarrow> string \<Rightarrow> timestamp \<Rightarrow> bool" where
  "updateMade d c now = (case updateClick d c now of Inl e \<Rightarrow> False | Inr d' \<Rightarrow> True)"

fun step ::
  "(string \<Rightarrow> string option) \<Rightarrow> string \<Rightarrow> event \<Rightarrow> db \<times> visit list \<Rightarrow> db \<times> visit list" where
  "step parseURL c (Lookup i) (d, vs) =
     (if i < length vs \<and> vs ! i = Pending then
        (d, vs[i := (case redirect_lookup d c of Inl r \<Rightarrow> Done False r | Inr l \<Rightarrow> Looked l)])
      else (d, vs))"
| "step parseURL c (Finish i now) (d, vs) =
     (if i < length vs then
        (case vs ! i of
           Looked l \<Rightarrow>
             (case redirect_finish parseURL d c l now of
                (r, d') \<Rightarrow> (d', vs[i := Done (updateMade d c now) r]))
         | Pending \<Rightarrow> (d, vs)
         | Done u r \<Rightarrow> (d, vs))
      else (d, vs))"

fun run ::
  "(string \<Rightarrow> string option) \<Rightarrow> string \<Rightarrow> event list \<Rightarrow> db \<times> visit list \<Rightarrow> db \<times> visit list" where
  "run parseURL c [] cfg = cfg"
| "run parseURL c (e # es) cfg = run parseURL c es (step parseURL c e cfg)"

definition redirected :: "visit \<Rightarrow> bool" where
  "redirected v =
     (case v of Done u r \<Rightarrow> status r = 302 | Pending \<Rightarrow> False | Looked l \<Rightarrow> False)"

definition counted :: "visit \<Rightarrow> bool" where
  "counted v = (case v of Done u r \<Rightarrow> u | Pending \<Rightarrow> False | Looked l \<Rightarrow> False)"

text \<open>The counter of the link with code \<open>c\<close>, 0 when there is none.\<close>

definition totalClicksOf :: "db \<Rightarrow> string \<Rightarrow> int" where
  "totalClicksOf d c = (case selectByCode d c of [] \<Rightarrow> 0 | l # ls \<Rightarrow> totalClicks l)"

section \<open>Sample data\<close>

text \<open>
  A table with one link, a sequence of random draws, and a stand-in for \<open>isURL\<close> that
  checks the scheme only, for the examples below.
\<close>

definition link1 :: Link where
  "link1 = \<lparr>id_col = 1, code = ''abc123'', targetUrl = ''https://example.com'',
            totalClicks = 5, lastClickedAt = Some 40, createdAt = 10\<rparr>"

definition db1 :: db where
  "db1 = \<lparr>rows = [link1], nextId = 2\<rparr>"

definition rnd0 :: random where
  "rnd0 i = 7 * i + 3"

definition hasHttpScheme :: "string \<Rightarrow> bool" where
  "hasHttpScheme url = (take 7 url = ''http://'' \<or> take 8 url = ''https://'')"

text \<open>
  Stand-ins for the other parameters. \<open>hrefOf\<close> is \<^verbatim>\<open>new URL\<close> on the two target URLs
  the examples visit: the first parses, to the text with the path added, the second is
  accepted by \<open>hasHttpScheme\<close> and does not parse. \<open>failedQuery\<close> has the shape of the
  message of a wrapped query error: the statement and its parameters, not the engine's
  text. \<open>byId\<close> is a scan in the order of the ids.
\<close>

definition hrefOf :: "string \<Rightarrow> string option" where
  "hrefOf url = (if url = ''https://example.com'' then Some ''https://example.com/'' else None)"

definition failedQuery :: thrown where
  "failedQuery e c url = ''Failed query: insert into links params: '' @ c @ '','' @ url @ '',0,''"

definition byId :: "Link \<Rightarrow> int" where
  "byId l = id_col l"

text \<open>A table with a second link, whose target URL does not parse.\<close>

definition link2 :: Link where
  "link2 = \<lparr>id_col = 2, code = ''xna001'', targetUrl = ''http://xn--a.com'',
            totalClicks = 0, lastClickedAt = None, createdAt = 20\<rparr>"

definition db2 :: db where
  "db2 = \<lparr>rows = [link1, link2], nextId = 3\<rparr>"

text \<open>A table whose rows are not in the order of \<open>createdAt\<close>, two of them created at once.\<close>

definition db4 :: db where
  "db4 =
     \<lparr>rows =
        [\<lparr>id_col = 1, code = ''latest'', targetUrl = ''https://a.example'', totalClicks = 2,
            lastClickedAt = Some 35, createdAt = 30\<rparr>,
         \<lparr>id_col = 2, code = ''first1'', targetUrl = ''https://b.example'', totalClicks = 0,
            lastClickedAt = None, createdAt = 10\<rparr>,
         \<lparr>id_col = 3, code = ''first2'', targetUrl = ''https://c.example'', totalClicks = 0,
            lastClickedAt = None, createdAt = 10\<rparr>],
      nextId = 4\<rparr>"

text \<open>A table that holds the first three codes drawn from \<open>rnd0\<close>.\<close>

definition db3 :: db where
  "db3 =
     \<lparr>rows =
        [\<lparr>id_col = 1, code = ''DKRYfm'', targetUrl = ''https://a.example'', totalClicks = 0,
            lastClickedAt = None, createdAt = 1\<rparr>,
         \<lparr>id_col = 2, code = ''t07ELS'', targetUrl = ''https://b.example'', totalClicks = 0,
            lastClickedAt = None, createdAt = 2\<rparr>,
         \<lparr>id_col = 3, code = ''Zgnu18'', targetUrl = ''https://c.example'', totalClicks = 0,
            lastClickedAt = None, createdAt = 3\<rparr>],
      nextId = 4\<rparr>"

section \<open>Facts about the validator\<close>

lemma dropWhile_all: "(\<forall>x\<in>set (dropWhile P xs). P x) \<longleftrightarrow> (\<forall>x\<in>set xs. P x)"
  by (induction xs) auto

lemma trim_Nil_iff: "trim s = [] \<longleftrightarrow> list_all isWhiteSpace s"
  unfolding trim_def
  by (simp add: dropWhile_eq_Nil_conv list_all_iff dropWhile_all)

lemma blank_not_alnum: "isWhiteSpace ch \<Longrightarrow> \<not> isAlnum ch"
  by (auto simp: isWhiteSpace_def isAlnum_def Let_def)

lemma blank_invalid:
  fixes c :: string
  assumes "trim c = []"
  shows "length c = 0 \<or> (\<exists>ch\<in>set c. \<not> isAlnum ch)"
proof (cases c)
  case Nil
  then show ?thesis by simp
next
  case (Cons x xs)
  from assms have "list_all isWhiteSpace c" by (simp add: trim_Nil_iff)
  with Cons have "isWhiteSpace x" by simp
  then have "\<not> isAlnum x" by (rule blank_not_alnum)
  with Cons show ?thesis by auto
qed

lemma validateCode_valid_iff:
  "valid (validateCode c) \<longleftrightarrow> 6 \<le> length c \<and> length c \<le> 8 \<and> (\<forall>ch\<in>set c. isAlnum ch)"
proof (cases "c = [] \<or> trim c = []")
  case True
  then show ?thesis
    using blank_invalid [of c] by (auto simp: validateCode_def)
next
  case False
  then show ?thesis
    by (auto simp: validateCode_def codeRegex_test_def list_all_iff)
qed

lemma validateCode_length: "valid (validateCode c) \<Longrightarrow> 6 \<le> length c \<and> length c \<le> 8"
  by (simp add: validateCode_valid_iff)

lemma validateCreate_none:
  "validateCreateLinkRequest isURL url None = validateCreateLinkRequest isURL url (Some [])"
  by (simp add: validateCreateLinkRequest_def truthy_def Let_def)

lemma validateCreate_empty:
  "valid (validateCreateLinkRequest isURL url (Some [])) \<longleftrightarrow> valid (validateUrl isURL url)"
  by (auto simp: validateCreateLinkRequest_def truthy_def Let_def)

lemma url_ok: "valid (validateUrl hasHttpScheme ''https://example.com'')"
  by (simp add: validateUrl_def hasHttpScheme_def trim_def isWhiteSpace_def)

section \<open>Facts about the generator\<close>

lemma alphabet_length: "length alphabet = 62"
  by (simp add: alphabet_def)

lemma alphabet_distinct: "distinct alphabet"
  by (simp add: alphabet_def)

lemma alphabet_alnum: "list_all isAlnum alphabet"
  by (simp add: alphabet_def isAlnum_def)

lemma generateShortCode_length: "length (fst (generateShortCode rnd)) = 6"
  by (simp add: generateShortCode_def customAlphabet_def)

lemma generateShortCode_set: "set (fst (generateShortCode rnd)) \<subseteq> set alphabet"
  by (auto simp: generateShortCode_def customAlphabet_def alphabet_length)

lemma generateShortCode_alnum: "ch \<in> set (fst (generateShortCode rnd)) \<Longrightarrow> isAlnum ch"
  using generateShortCode_set [of rnd] alphabet_alnum by (auto simp: list_all_iff)

lemma candidates_shape:
  "c \<in> set (candidates rnd n) \<Longrightarrow> length c = 6 \<and> (\<forall>ch\<in>set c. isAlnum ch)"
  by (induction n arbitrary: rnd) (auto simp: generateShortCode_length generateShortCode_alnum)

declare generateUniqueShortCode_loop.simps [simp del]

lemma loop_find:
  "generateUniqueShortCode_loop p m a rnd =
     find (\<lambda>c. \<not> p c) (candidates rnd (nat (m + 1 - a)))"
proof (induction p m a rnd rule: generateUniqueShortCode_loop.induct)
  case (1 p m a rnd)
  show ?case
  proof (cases "a \<le> m")
    case True
    then have n: "nat (m + 1 - a) = Suc (nat (m + 1 - (a + 1)))" by simp
    obtain c rnd' where g: "generateShortCode rnd = (c, rnd')" by (cases "generateShortCode rnd")
    show ?thesis
    proof (cases "p c")
      case True
      with \<open>a \<le> m\<close> g have "generateUniqueShortCode_loop p m (a + 1) rnd' =
          find (\<lambda>c. \<not> p c) (candidates rnd' (nat (m + 1 - (a + 1))))"
        by (intro "1.IH") auto
      with True \<open>a \<le> m\<close> g show ?thesis
        by (subst generateUniqueShortCode_loop.simps) (simp add: n)
    next
      case False
      with \<open>a \<le> m\<close> g show ?thesis
        by (subst generateUniqueShortCode_loop.simps) (simp add: n)
    qed
  next
    case False
    then show ?thesis
      by (subst generateUniqueShortCode_loop.simps) simp
  qed
qed

lemma generateUniqueShortCode_find:
  "generateUniqueShortCode p m rnd = find (\<lambda>c. \<not> p c) (candidates rnd (nat m))"
  by (simp add: generateUniqueShortCode_def loop_find)

lemma generateUniqueShortCode_shape:
  assumes "generateUniqueShortCode p m rnd = Some c"
  shows "length c = 6 \<and> (\<forall>ch\<in>set c. isAlnum ch) \<and> \<not> p c"
proof -
  from assms have "find (\<lambda>c. \<not> p c) (candidates rnd (nat m)) = Some c"
    by (simp add: generateUniqueShortCode_find)
  then have "c \<in> set (candidates rnd (nat m))" and "\<not> p c"
    by (auto simp: find_Some_iff)
  then show ?thesis using candidates_shape by blast
qed

section \<open>Facts about the statements and the handlers\<close>

lemma selectByCode_Nil: "selectByCode d c = [] \<longleftrightarrow> c \<notin> code ` set (rows d)"
  by (auto simp: selectByCode_def filter_empty_conv)

lemma selectByCode_Cons:
  "selectByCode d c = l # ls \<Longrightarrow> code l = c \<and> l \<in> set (rows d) \<and> ls = []"
proof -
  assume a: "selectByCode d c = l # ls"
  then have "l \<in> set (take 1 (filter (\<lambda>l. code l = c) (rows d)))"
    by (simp add: selectByCode_def)
  then have "l \<in> set (filter (\<lambda>l. code l = c) (rows d))" by (rule in_set_takeD)
  moreover from a have "length (l # ls) \<le> 1"
    by (metis selectByCode_def length_take min.cobounded2)
  ultimately show ?thesis by simp
qed

lemma list_ex_code: "list_ex (\<lambda>l. code l = c) xs \<longleftrightarrow> c \<in> code ` set xs"
  by (auto simp: list_ex_iff)

lemma updateClick_absent: "selectByCode d c = [] \<Longrightarrow> updateClick d c now = Inr d"
proof -
  assume "selectByCode d c = []"
  then have n: "\<forall>l\<in>set (rows d). code l \<noteq> c" by (auto simp: selectByCode_Nil)
  then have "map (\<lambda>l. if code l = c then clicked now l else l) (rows d) = rows d"
    by (intro map_idI) simp
  moreover from n have "\<not> list_ex (\<lambda>l. code l = c \<and> totalClicks l + 1 > int4_max) (rows d)"
    by (simp add: list_ex_iff)
  ultimately show ?thesis by (simp add: updateClick_def)
qed


lemma updateClick_select:
  "updateClick d c now = Inr d' \<Longrightarrow> selectByCode d' k = map (\<lambda>l. if code l = c then clicked now l else l) (selectByCode d k)"
proof -
  assume "updateClick d c now = Inr d'"
  then have r: "rows d' = map (\<lambda>l. if code l = c then clicked now l else l) (rows d)"
    by (auto simp: updateClick_def split: if_splits)
  have "(\<lambda>l. code l = k) \<circ> (\<lambda>l. if code l = c then clicked now l else l) = (\<lambda>l. code l = k)"
    by (auto simp: fun_eq_iff clicked_def)
  with r show ?thesis
    by (simp add: selectByCode_def filter_map take_map)
qed

lemma deleteByCode_select: "selectByCode (deleteByCode d c) c = []"
  by (auto simp: selectByCode_Nil deleteByCode_def)

lemma DELETE_link_select: "selectByCode (snd (DELETE_link d c)) c = []"
  by (simp add: DELETE_link_def deleteByCode_select)

lemma GET_code_absent:
  "selectByCode d c = [] \<Longrightarrow>
     GET_code parseURL d c now = (\<lparr>status = 404, body = Text ''Not Found''\<rparr>, d)"
  by (simp add: GET_code_def redirect_lookup_def)

lemma redirect_finish_absent:
  "selectByCode d c = [] \<Longrightarrow>
     redirect_finish parseURL d c l now =
       (case parseURL (targetUrl l) of
          None \<Rightarrow> \<lparr>status = 500, body = Text ''Internal Server Error''\<rparr>
        | Some href \<Rightarrow> \<lparr>status = 302, body = Location href\<rparr>, d)"
  by (simp add: redirect_finish_def updateClick_absent split: option.splits)


lemma insertLink_Inr:
  assumes "insertLink d c url n t now = Inr (l, d')"
  shows "selectByCode d c = [] \<and> nextId d \<le> int4_max \<and> length c \<le> 8
         \<and> l = \<lparr>id_col = nextId d, code = c, targetUrl = url, totalClicks = n,
                  lastClickedAt = t, createdAt = now\<rparr>
         \<and> d' = \<lparr>rows = rows d @ [l], nextId = nextId d + 1\<rparr>"
  using assms by (auto simp: insertLink_def list_ex_code selectByCode_Nil Let_def split: if_splits)

lemma insertLink_fresh:
  assumes "selectByCode d c = []" and "nextId d \<le> int4_max" and "length c \<le> 8"
  shows "insertLink d c url n t now =
           Inr (\<lparr>id_col = nextId d, code = c, targetUrl = url, totalClicks = n,
                  lastClickedAt = t, createdAt = now\<rparr>,
                \<lparr>rows = rows d @ [\<lparr>id_col = nextId d, code = c, targetUrl = url, totalClicks = n,
                  lastClickedAt = t, createdAt = now\<rparr>], nextId = nextId d + 1\<rparr>)"
  using assms by (auto simp: insertLink_def list_ex_code selectByCode_Nil Let_def)

lemma insertLink_Inl_rows: "insertLink d c url n t now = Inl (e, d') \<Longrightarrow> rows d' = rows d"
  by (auto simp: insertLink_def Let_def split: if_splits)

lemma POST_insert_cases:
  "(\<exists>l. POST_insert thrown d c url now =
         (\<lparr>status = 201, body = LinkJson (serializeLink l)\<rparr>,
          \<lparr>rows = rows d @ [l], nextId = nextId d + 1\<rparr>)
       \<and> l = \<lparr>id_col = nextId d, code = c, targetUrl = url, totalClicks = 0,
                lastClickedAt = None, createdAt = now\<rparr>
       \<and> selectByCode d c = [] \<and> nextId d \<le> int4_max \<and> length c \<le> 8)
   \<or> (status (fst (POST_insert thrown d c url now)) \<in> {409, 500}
       \<and> rows (snd (POST_insert thrown d c url now)) = rows d)"
proof (cases "insertLink d c url 0 None now")
  case (Inl a)
  then obtain e d' where "insertLink d c url 0 None now = Inl (e, d')" by (cases a) auto
  then show ?thesis
    by (auto simp: POST_insert_def dest: insertLink_Inl_rows)
next
  case (Inr b)
  then obtain l d' where i: "insertLink d c url 0 None now = Inr (l, d')" by (cases b) auto
  from insertLink_Inr [OF i] i show ?thesis
    by (simp add: POST_insert_def)
qed


lemma POST_insert_fresh:
  assumes "selectByCode d c = []" and "nextId d \<le> int4_max" and "length c \<le> 8"
  shows "POST_insert thrown d c url now =
           (\<lparr>status = 201,
              body = LinkJson \<lparr>id_col = nextId d, code = c, targetUrl = url, totalClicks = 0,
                  lastClickedAt = None, createdAt = ISO now\<rparr>\<rparr>,
            \<lparr>rows = rows d @ [\<lparr>id_col = nextId d, code = c, targetUrl = url, totalClicks = 0,
                  lastClickedAt = None, createdAt = now\<rparr>], nextId = nextId d + 1\<rparr>)"
  by (simp add: POST_insert_def insertLink_fresh [OF assms] serializeLink_def)

lemma selectByCode_append_fresh:
  assumes "selectByCode d c = []" and "code l = c"
  shows "selectByCode \<lparr>rows = rows d @ [l], nextId = n\<rparr> c = [l]"
proof -
  from assms(1) have "filter (\<lambda>l. code l = c) (rows d) = []"
    by (simp add: selectByCode_def)
  with assms(2) show ?thesis by (simp add: selectByCode_def)
qed

lemma POST_check_custom_valid:
  assumes "valid (validateUrl isURL url)" and "valid (validateCode c)"
  shows "POST_check isURL rnd d url (Some c) =
           (if selectByCode d c \<noteq> [] then
              Inl \<lparr>status = 409, body = ErrorJson ''Code already exists''\<rparr>
            else Inr c)"
proof -
  from assms(2) have "c \<noteq> []" using validateCode_length [of c] by auto
  with assms show ?thesis
    by (simp add: POST_check_def validateCreateLinkRequest_def truthy_def Let_def)
qed

lemma POST_check_invalid_code:
  assumes "valid (validateUrl isURL url)" and "\<not> valid (validateCode c)" and "c \<noteq> []"
  shows "POST_check isURL rnd d url (Some c) =
           Inl \<lparr>status = 400, body = ErrorJson (the (error (validateCode c)))\<rparr>"
  using assms by (simp add: POST_check_def validateCreateLinkRequest_def truthy_def Let_def)

lemma POST_custom_201:
  assumes "c \<noteq> []" and "POST thrown isURL rnd d url (Some c) now = (r, d')" and "status r = 201"
  shows "r = \<lparr>status = 201,
               body = LinkJson \<lparr>id_col = nextId d, code = c, targetUrl = url, totalClicks = 0,
                 lastClickedAt = None, createdAt = ISO now\<rparr>\<rparr>
         \<and> GET_link d' c = (\<lparr>status = 200, body = body r\<rparr>, d')"
proof (cases "POST_check isURL rnd d url (Some c)")
  case (Inl a)
  with assms show ?thesis
    by (auto simp: POST_def POST_check_def truthy_def Let_def split: if_splits)
next
  case (Inr g)
  with assms(1) have "g = c"
    by (auto simp: POST_check_def truthy_def Let_def split: if_splits)
  with Inr assms(2) have i: "POST_insert thrown d c url now = (r, d')" by (simp add: POST_def)
  let ?l = "\<lparr>id_col = nextId d, code = c, targetUrl = url, totalClicks = 0,
               lastClickedAt = None, createdAt = now\<rparr>"
  from POST_insert_cases [of thrown d c url now] i assms(3)
  have r: "r = \<lparr>status = 201, body = LinkJson (serializeLink ?l)\<rparr>"
    and d': "d' = \<lparr>rows = rows d @ [?l], nextId = nextId d + 1\<rparr>"
    and f: "selectByCode d c = []"
    by auto
  have "selectByCode \<lparr>rows = rows d @ [?l], nextId = nextId d + 1\<rparr> c = [?l]"
    using f by (intro selectByCode_append_fresh) simp_all
  with r d' show ?thesis by (simp add: GET_link_def serializeLink_def)
qed

lemma POST_custom_fresh:
  assumes "valid (validateUrl isURL url)" and "valid (validateCode c)"
    and "selectByCode d c = []" and "nextId d \<le> int4_max"
  shows "status (fst (POST thrown isURL rnd d url (Some c) now)) = 201"
proof -
  from assms(2) have len: "length c \<le> 8" using validateCode_length by blast
  from assms show ?thesis
    by (simp add: POST_def POST_check_custom_valid POST_insert_fresh len)
qed

lemma POST_none_empty:
  "POST thrown isURL rnd d url (Some []) now = POST thrown isURL rnd d url None now"
  by (simp add: POST_def POST_check_def validateCreate_none truthy_def)

lemma POST_check_generated:
  assumes "\<not> truthy customCode"
  shows "POST_check isURL rnd d url customCode =
     (if \<not> valid (validateUrl isURL url) then
        Inl \<lparr>status = 400, body = ErrorJson (the (error (validateUrl isURL url)))\<rparr>
      else
        (case generateUniqueShortCode (\<lambda>c. selectByCode d c \<noteq> []) 3 rnd of
           None \<Rightarrow>
             Inl \<lparr>status = 500,
                  body = ErrorJson ''Failed to generate unique code. Please try again.''\<rparr>
         | Some g \<Rightarrow> Inr g))"
proof (cases "generateUniqueShortCode (\<lambda>c. selectByCode d c \<noteq> []) 3 rnd")
  case None
  with assms show ?thesis
    by (simp add: POST_check_def validateCreateLinkRequest_def Let_def)
next
  case (Some g)
  then have "length g = 6" using generateUniqueShortCode_shape by blast
  then have "g \<noteq> []" by auto
  with Some assms show ?thesis
    by (simp add: POST_check_def validateCreateLinkRequest_def Let_def)
qed

lemma POST_generated_201:
  assumes "\<not> truthy customCode"
    and "POST thrown isURL rnd d url customCode now = (r, d')" and "status r = 201"
  shows "\<exists>l. r = \<lparr>status = 201, body = LinkJson (serializeLink l)\<rparr>
           \<and> d' = \<lparr>rows = rows d @ [l], nextId = nextId d + 1\<rparr>
           \<and> l = \<lparr>id_col = nextId d, code = code l, targetUrl = url, totalClicks = 0,
                  lastClickedAt = None, createdAt = now\<rparr>
           \<and> generateUniqueShortCode (\<lambda>c. selectByCode d c \<noteq> []) 3 rnd = Some (code l)
           \<and> length (code l) = 6 \<and> list_all isAlnum (code l) \<and> selectByCode d (code l) = []"
proof -
  from assms obtain g where
    g: "generateUniqueShortCode (\<lambda>c. selectByCode d c \<noteq> []) 3 rnd = Some g"
    and c: "POST_check isURL rnd d url customCode = Inr g"
    by (auto simp: POST_def POST_check_generated split: if_splits option.splits)
  from c assms(2) have i: "POST_insert thrown d g url now = (r, d')" by (simp add: POST_def)
  from generateUniqueShortCode_shape [OF g]
  have sh: "length g = 6 \<and> list_all isAlnum g \<and> selectByCode d g = []"
    by (simp add: list_all_iff)
  from POST_insert_cases [of thrown d g url now] i assms(3) g sh show ?thesis
    by auto
qed

lemma POST_generated_not_201:
  assumes "\<not> truthy customCode"
    and "POST thrown isURL rnd d url customCode now = (r, d')" and "status r \<noteq> 201"
  shows "rows d' = rows d"
proof (cases "POST_check isURL rnd d url customCode")
  case (Inl a)
  with assms(2) show ?thesis by (simp add: POST_def)
next
  case (Inr g)
  with assms(2) have i: "POST_insert thrown d g url now = (r, d')" by (simp add: POST_def)
  from POST_insert_cases [of thrown d g url now] i assms(3) show ?thesis by auto
qed

lemma POST_generated_ok:
  assumes "\<not> truthy customCode" and "valid (validateUrl isURL url)"
    and "generateUniqueShortCode (\<lambda>c. selectByCode d c \<noteq> []) 3 rnd = Some g"
    and "nextId d \<le> int4_max"
  shows "status (fst (POST thrown isURL rnd d url customCode now)) = 201"
proof -
  from generateUniqueShortCode_shape [OF assms(3)]
  have sh: "length g \<le> 8" and f: "selectByCode d g = []" by simp_all
  from assms have "POST_check isURL rnd d url customCode = Inr g"
    by (simp add: POST_check_generated)
  with POST_insert_fresh [OF f assms(4) sh] show ?thesis by (simp add: POST_def)
qed

lemma updateClick_Inr:
  "updateClick d c now = Inr d' \<Longrightarrow>
     d' = d\<lparr>rows := map (\<lambda>l. if code l = c
            then l\<lparr>totalClicks := totalClicks l + 1, lastClickedAt := Some now\<rparr> else l) (rows d)\<rparr>"
  by (auto simp: updateClick_def clicked_def split: if_splits)

lemma updateClick_ok:
  assumes "\<forall>k\<in>set (rows d). code k = c \<longrightarrow> totalClicks k < int4_max"
  shows "updateClick d c now =
           Inr (d\<lparr>rows := map (\<lambda>l. if code l = c
              then l\<lparr>totalClicks := totalClicks l + 1, lastClickedAt := Some now\<rparr> else l) (rows d)\<rparr>)"
  using assms by (auto simp: updateClick_def list_ex_iff clicked_def)

lemma redirect_finish_cases:
  "(\<exists>e. updateClick d c now = Inl e
       \<and> redirect_finish parseURL d c l now =
           (\<lparr>status = 500, body = Text ''Internal Server Error''\<rparr>, d))
   \<or> (\<exists>d'. updateClick d c now = Inr d' \<and> parseURL (targetUrl l) = None
       \<and> redirect_finish parseURL d c l now =
           (\<lparr>status = 500, body = Text ''Internal Server Error''\<rparr>, d'))
   \<or> (\<exists>d' href. updateClick d c now = Inr d' \<and> parseURL (targetUrl l) = Some href
       \<and> redirect_finish parseURL d c l now = (\<lparr>status = 302, body = Location href\<rparr>, d'))"
  by (cases "updateClick d c now"; cases "parseURL (targetUrl l)")
    (simp_all add: redirect_finish_def)

lemma GET_code_cases:
  assumes "GET_code parseURL d c now = (r, d')"
  shows "(selectByCode d c = [] \<and> r = \<lparr>status = 404, body = Text ''Not Found''\<rparr> \<and> d' = d)
   \<or> (\<exists>l. selectByCode d c = [l] \<and> redirect_finish parseURL d c l now = (r, d'))"
proof (cases "selectByCode d c")
  case Nil
  with assms show ?thesis by (auto simp: GET_code_def redirect_lookup_def)
next
  case (Cons l ls)
  then have "ls = []" using selectByCode_Cons by blast
  with Cons assms show ?thesis by (simp add: GET_code_def redirect_lookup_def)
qed

lemma GET_code_302:
  assumes "GET_code parseURL d c now = (r, d')" and "status r = 302"
  shows "(\<exists>l href. selectByCode d c = [l] \<and> parseURL (targetUrl l) = Some href
            \<and> r = \<lparr>status = 302, body = Location href\<rparr>)
         \<and> d' = d\<lparr>rows := map (\<lambda>l. if code l = c
            then l\<lparr>totalClicks := totalClicks l + 1, lastClickedAt := Some now\<rparr> else l) (rows d)\<rparr>"
proof -
  from GET_code_cases [OF assms(1)] assms(2) obtain l
    where s: "selectByCode d c = [l]" and f: "redirect_finish parseURL d c l now = (r, d')"
    by auto
  from redirect_finish_cases [of d c now parseURL l] f assms(2) obtain href
    where u: "updateClick d c now = Inr d'" and h: "parseURL (targetUrl l) = Some href"
      and r: "r = \<lparr>status = 302, body = Location href\<rparr>"
    by auto
  from s h r updateClick_Inr [OF u] show ?thesis by blast
qed

lemma GET_code_404:
  assumes "GET_code parseURL d c now = (r, d')" and "status r = 404"
  shows "d' = d \<and> selectByCode d c = []"
proof -
  from GET_code_cases [OF assms(1)] show ?thesis
  proof
    assume "selectByCode d c = [] \<and> r = \<lparr>status = 404, body = Text ''Not Found''\<rparr> \<and> d' = d"
    then show ?thesis by simp
  next
    assume "\<exists>l. selectByCode d c = [l] \<and> redirect_finish parseURL d c l now = (r, d')"
    then obtain l where f: "redirect_finish parseURL d c l now = (r, d')" by blast
    from redirect_finish_cases [of d c now parseURL l] f assms(2) show ?thesis by auto
  qed
qed

lemma GET_code_frame:
  assumes "GET_code parseURL d c now = (r, d')"
  shows "d' = d \<or> d' = d\<lparr>rows := map (\<lambda>l. if code l = c
            then l\<lparr>totalClicks := totalClicks l + 1, lastClickedAt := Some now\<rparr> else l) (rows d)\<rparr>"
proof -
  from GET_code_cases [OF assms] show ?thesis
  proof
    assume "selectByCode d c = [] \<and> r = \<lparr>status = 404, body = Text ''Not Found''\<rparr> \<and> d' = d"
    then show ?thesis by simp
  next
    assume "\<exists>l. selectByCode d c = [l] \<and> redirect_finish parseURL d c l now = (r, d')"
    then obtain l where f: "redirect_finish parseURL d c l now = (r, d')" by blast
    from redirect_finish_cases [of d c now parseURL l] f show ?thesis
      by (auto dest: updateClick_Inr)
  qed
qed

lemma GET_code_present:
  assumes "selectByCode d c = [l]"
    and "\<forall>k\<in>set (rows d). code k = c \<longrightarrow> totalClicks k < int4_max"
  shows "GET_code parseURL d c now =
           (case parseURL (targetUrl l) of
              None \<Rightarrow> \<lparr>status = 500, body = Text ''Internal Server Error''\<rparr>
            | Some href \<Rightarrow> \<lparr>status = 302, body = Location href\<rparr>,
            d\<lparr>rows := map (\<lambda>l. if code l = c
              then l\<lparr>totalClicks := totalClicks l + 1, lastClickedAt := Some now\<rparr> else l) (rows d)\<rparr>)"
  using assms(1) updateClick_ok [OF assms(2), of now]
  by (simp add: GET_code_def redirect_lookup_def redirect_finish_def split: option.splits)









section \<open>Facts about concurrent visits\<close>

lemma filter_update_length:
  "i < length vs \<Longrightarrow>
     length (filter P (vs[i := v])) + (if P (vs ! i) then 1 else 0) =
     length (filter P vs) + (if P v then 1 else 0)"
proof (induction vs arbitrary: i)
  case Nil
  then show ?case by simp
next
  case (Cons a vs)
  show ?case
  proof (cases i)
    case 0
    then show ?thesis by simp
  next
    case (Suc j)
    with Cons.prems have "j < length vs" by simp
    from Cons.IH [OF this] Suc show ?thesis by simp
  qed
qed

lemma updateClick_totalClicksOf:
  assumes "updateClick d c now = Inr d'" and "selectByCode d c \<noteq> []"
  shows "totalClicksOf d' c = totalClicksOf d c + 1 \<and> selectByCode d' c \<noteq> []"
proof -
  from assms(2) obtain l ls where s: "selectByCode d c = l # ls"
    by (cases "selectByCode d c") auto
  then have "code l = c" using selectByCode_Cons by blast
  with s updateClick_select [OF assms(1), of c] show ?thesis
    by (simp add: totalClicksOf_def clicked_def)
qed

lemma step_Lookup_inv:
  assumes t: "totalClicksOf d c = base + int (length (filter counted vs))"
    and p: "(\<exists>l. Looked l \<in> set vs) \<longrightarrow> selectByCode d c \<noteq> []"
    and q: "\<forall>v\<in>set vs. redirected v \<longrightarrow> counted v"
    and s: "step parseURL c (Lookup i) (d, vs) = (d', vs')"
  shows "totalClicksOf d' c = base + int (length (filter counted vs'))
         \<and> ((\<exists>l. Looked l \<in> set vs') \<longrightarrow> selectByCode d' c \<noteq> [])
         \<and> (\<forall>v\<in>set vs'. redirected v \<longrightarrow> counted v)
         \<and> length vs' = length vs"
proof (cases "i < length vs \<and> vs ! i = Pending")
  case False
  with s have "d' = d" and "vs' = vs" by auto
  with t p q show ?thesis by simp
next
  case True
  let ?v = "case redirect_lookup d c of Inl r \<Rightarrow> Done False r | Inr l \<Rightarrow> Looked l"
  from True s have d: "d' = d" and v: "vs' = vs[i := ?v]" by auto
  have nr: "\<not> redirected ?v" and nc: "\<not> counted ?v"
    by (auto simp: redirected_def counted_def redirect_lookup_def split: list.splits)
  from True have np: "\<not> counted (vs ! i)" by (simp add: counted_def)
  from filter_update_length [of i vs counted ?v] True nc np
  have c: "length (filter counted vs') = length (filter counted vs)"
    by (simp add: v)
  have m: "w = ?v \<or> w \<in> set vs" if "w \<in> set vs'" for w
    using that v set_update_subset_insert [of vs i ?v] by auto
  have "selectByCode d c \<noteq> []" if "Looked l \<in> set vs'" for l
  proof -
    from m [OF that] show ?thesis
    proof
      assume "Looked l = ?v"
      then show ?thesis
        by (auto simp: redirect_lookup_def split: list.splits)
    next
      assume "Looked l \<in> set vs"
      with p show ?thesis by blast
    qed
  qed
  moreover have "counted w" if "w \<in> set vs'" and "redirected w" for w
    using m [OF that(1)] that(2) nr q by auto
  ultimately show ?thesis using t c d v by auto
qed

lemma step_Finish_inv:
  assumes t: "totalClicksOf d c = base + int (length (filter counted vs))"
    and p: "(\<exists>l. Looked l \<in> set vs) \<longrightarrow> selectByCode d c \<noteq> []"
    and q: "\<forall>v\<in>set vs. redirected v \<longrightarrow> counted v"
    and s: "step parseURL c (Finish i now) (d, vs) = (d', vs')"
  shows "totalClicksOf d' c = base + int (length (filter counted vs'))
         \<and> ((\<exists>l. Looked l \<in> set vs') \<longrightarrow> selectByCode d' c \<noteq> [])
         \<and> (\<forall>v\<in>set vs'. redirected v \<longrightarrow> counted v)
         \<and> length vs' = length vs"
proof (cases "i < length vs \<and> (\<exists>l. vs ! i = Looked l)")
  case False
  with s have "d' = d" and "vs' = vs" by (auto split: visit.splits)
  with t p q show ?thesis by simp
next
  case True
  then obtain l where i: "i < length vs" and l: "vs ! i = Looked l" by blast
  then have "Looked l \<in> set vs" by (metis nth_mem)
  with p have pres: "selectByCode d c \<noteq> []" by blast
  from l have np: "\<not> counted (vs ! i)" by (simp add: counted_def)
  obtain r d1 where f: "redirect_finish parseURL d c l now = (r, d1)"
    by (cases "redirect_finish parseURL d c l now")
  let ?w = "Done (updateMade d c now) r"
  from f s i l have d: "d' = d1" and v: "vs' = vs[i := ?w]" by auto
  have m: "w = ?w \<or> w \<in> set vs" if "w \<in> set vs'" for w
    using that v set_update_subset_insert [of vs i ?w] by auto
  show ?thesis
  proof (cases "updateClick d c now")
    case (Inl e)
    then have nm: "\<not> updateMade d c now" by (simp add: updateMade_def)
    from Inl f have d1: "d1 = d" and r: "status r = 500"
      by (auto simp: redirect_finish_def)
    from nm have nc: "\<not> counted ?w" by (simp add: counted_def)
    from r have nr: "\<not> redirected ?w" by (simp add: redirected_def)
    from filter_update_length [of i vs counted ?w] i nc np
    have c: "length (filter counted vs') = length (filter counted vs)"
      by (simp add: v)
    have "counted w" if "w \<in> set vs'" and "redirected w" for w
      using m [OF that(1)] that(2) nr q by auto
    moreover have "selectByCode d' c \<noteq> []" using pres d d1 by simp
    ultimately show ?thesis using t c d d1 v by auto
  next
    case (Inr d2)
    then have um: "updateMade d c now" by (simp add: updateMade_def)
    from Inr f have d1: "d1 = d2"
      by (auto simp: redirect_finish_def split: option.splits)
    from um have cw: "counted ?w" by (simp add: counted_def)
    from filter_update_length [of i vs counted ?w] i cw np
    have c: "length (filter counted vs') = length (filter counted vs) + 1"
      by (simp add: v)
    have "counted w" if "w \<in> set vs'" and "redirected w" for w
      using m [OF that(1)] that(2) cw q by auto
    with updateClick_totalClicksOf [OF Inr pres] t c d d1 v show ?thesis by auto
  qed
qed

lemma step_inv:
  assumes "totalClicksOf d c = base + int (length (filter counted vs))"
    and "(\<exists>l. Looked l \<in> set vs) \<longrightarrow> selectByCode d c \<noteq> []"
    and "\<forall>v\<in>set vs. redirected v \<longrightarrow> counted v"
    and "step parseURL c e (d, vs) = (d', vs')"
  shows "totalClicksOf d' c = base + int (length (filter counted vs'))
         \<and> ((\<exists>l. Looked l \<in> set vs') \<longrightarrow> selectByCode d' c \<noteq> [])
         \<and> (\<forall>v\<in>set vs'. redirected v \<longrightarrow> counted v)
         \<and> length vs' = length vs"
proof (cases e)
  case (Lookup i)
  with assms(4) have s: "step parseURL c (Lookup i) (d, vs) = (d', vs')" by (simp only:)
  show ?thesis by (rule step_Lookup_inv [OF assms(1,2,3) s])
next
  case (Finish i now)
  with assms(4) have s: "step parseURL c (Finish i now) (d, vs) = (d', vs')" by (simp only:)
  show ?thesis by (rule step_Finish_inv [OF assms(1,2,3) s])
qed

lemma run_inv:
  assumes "totalClicksOf d c = base + int (length (filter counted vs))"
    and "(\<exists>l. Looked l \<in> set vs) \<longrightarrow> selectByCode d c \<noteq> []"
    and "\<forall>v\<in>set vs. redirected v \<longrightarrow> counted v"
    and "run parseURL c es (d, vs) = (d', vs')"
  shows "totalClicksOf d' c = base + int (length (filter counted vs'))
         \<and> (\<forall>v\<in>set vs'. redirected v \<longrightarrow> counted v)
         \<and> length vs' = length vs"
  using assms
proof (induction es arbitrary: d vs)
  case Nil
  then show ?case by simp
next
  case (Cons e es)
  obtain d1 vs1 where s: "step parseURL c e (d, vs) = (d1, vs1)"
    by (cases "step parseURL c e (d, vs)")
  from step_inv [OF Cons.prems(1,2,3) s]
  have a: "totalClicksOf d1 c = base + int (length (filter counted vs1))"
    and b: "(\<exists>l. Looked l \<in> set vs1) \<longrightarrow> selectByCode d1 c \<noteq> []"
    and q: "\<forall>v\<in>set vs1. redirected v \<longrightarrow> counted v"
    and n: "length vs1 = length vs" by simp_all
  from Cons.prems(4) s have "run parseURL c es (d1, vs1) = (d', vs')" by simp
  from Cons.IH [OF a b q this] n show ?case by simp
qed

lemma redirect_finish_snapshot:
  "snd (redirect_finish parseURL d c l now) = snd (redirect_finish parseURL d c l' now)"
  by (cases "updateClick d c now")
    (simp_all add: redirect_finish_def split: option.splits)

section \<open>Resolve and redirect\<close>

text \<open>
  C1, as the code has it. A visit of a code that no row carries when the select runs,
  never created or deleted before, is answered 404 and changes nothing; so is any visit
  after \<open>DELETE_link\<close> of that code. When the row is deleted between the select and the
  update, the update matches no row and changes nothing, and the visit is answered from
  the target the select read, as for a live link: with the 302 redirect to it, or with
  500 when no redirect can be built from it. It is not answered 404.
\<close>

theorem redirect_not_found:
  "(selectByCode d c = [] \<longrightarrow>
      GET_code parseURL d c now = (\<lparr>status = 404, body = Text ''Not Found''\<rparr>, d))
   \<and> fst (GET_code parseURL (snd (DELETE_link d c)) c now) =
       \<lparr>status = 404, body = Text ''Not Found''\<rparr>
   \<and> (redirect_lookup d c = Inr l \<and> selectByCode d' c = [] \<longrightarrow>
        redirect_finish parseURL d' c l now =
          (case parseURL (targetUrl l) of
             None \<Rightarrow> \<lparr>status = 500, body = Text ''Internal Server Error''\<rparr>
           | Some href \<Rightarrow> \<lparr>status = 302, body = Location href\<rparr>, d'))"
  by (simp add: GET_code_absent DELETE_link_select redirect_finish_absent)

theorem redirect_not_found_witness:
  "selectByCode (snd (DELETE_link db2 ''abc123'')) ''abc123'' = []
   \<and> GET_code hrefOf (snd (DELETE_link db2 ''abc123'')) ''abc123'' 99 =
       (\<lparr>status = 404, body = Text ''Not Found''\<rparr>, \<lparr>rows = [link2], nextId = 3\<rparr>)
   \<and> redirect_lookup db2 ''abc123'' = Inr link1
   \<and> redirect_finish hrefOf \<lparr>rows = [link2], nextId = 3\<rparr> ''abc123'' link1 99 =
       (\<lparr>status = 302, body = Location ''https://example.com/''\<rparr>,
        \<lparr>rows = [link2], nextId = 3\<rparr>)
   \<and> redirect_lookup db2 ''xna001'' = Inr link2
   \<and> redirect_finish hrefOf \<lparr>rows = [link1], nextId = 3\<rparr> ''xna001'' link2 99 =
       (\<lparr>status = 500, body = Text ''Internal Server Error''\<rparr>,
        \<lparr>rows = [link1], nextId = 3\<rparr>)"
proof -
  have e: "snd (DELETE_link db2 ''abc123'') = \<lparr>rows = [link2], nextId = 3\<rparr>"
    by (simp add: DELETE_link_def deleteByCode_def selectByCode_def db2_def link1_def link2_def)
  have s1: "selectByCode \<lparr>rows = [link2], nextId = 3\<rparr> ''abc123'' = []"
    by (simp add: selectByCode_def link2_def)
  have s2: "selectByCode \<lparr>rows = [link1], nextId = 3\<rparr> ''xna001'' = []"
    by (simp add: selectByCode_def link1_def)
  have l1: "redirect_lookup db2 ''abc123'' = Inr link1"
    by (simp add: redirect_lookup_def selectByCode_def db2_def link1_def link2_def)
  have l2: "redirect_lookup db2 ''xna001'' = Inr link2"
    by (simp add: redirect_lookup_def selectByCode_def db2_def link1_def link2_def)
  have h1: "hrefOf (targetUrl link1) = Some ''https://example.com/''"
    by (simp add: hrefOf_def link1_def)
  have h2: "hrefOf (targetUrl link2) = None"
    by (simp add: hrefOf_def link2_def)
  note t1 = redirect_not_found [where d = "\<lparr>rows = [link2], nextId = 3\<rparr>" and c = "''abc123''"
      and now = 99 and parseURL = hrefOf]
  note t2 = redirect_not_found [where d = db2 and c = "''abc123''" and now = 99 and l = link1
      and d' = "\<lparr>rows = [link2], nextId = 3\<rparr>" and parseURL = hrefOf]
  note t3 = redirect_not_found [where d = db2 and c = "''xna001''" and now = 99 and l = link2
      and d' = "\<lparr>rows = [link1], nextId = 3\<rparr>" and parseURL = hrefOf]
  from t1 s1 have a: "GET_code hrefOf \<lparr>rows = [link2], nextId = 3\<rparr> ''abc123'' 99 =
       (\<lparr>status = 404, body = Text ''Not Found''\<rparr>, \<lparr>rows = [link2], nextId = 3\<rparr>)"
    by simp
  from t2 l1 s1 h1 have b: "redirect_finish hrefOf \<lparr>rows = [link2], nextId = 3\<rparr> ''abc123'' link1 99 =
       (\<lparr>status = 302, body = Location ''https://example.com/''\<rparr>,
        \<lparr>rows = [link2], nextId = 3\<rparr>)"
    by simp
  from t3 l2 s2 h2 have c: "redirect_finish hrefOf \<lparr>rows = [link1], nextId = 3\<rparr> ''xna001'' link2 99 =
       (\<lparr>status = 500, body = Text ''Internal Server Error''\<rparr>,
        \<lparr>rows = [link1], nextId = 3\<rparr>)"
    by simp
  from e s1 a b c l1 l2 show ?thesis by simp
qed

text \<open>
  C1 as stated fails: \<open>link1\<close> is found by the select, deleted before the update, and the
  visit is answered with a redirect to its target, not with 404.
\<close>

theorem stale_redirect_counterexample:
  "redirect_lookup db1 ''abc123'' = Inr link1
   \<and> selectByCode (snd (DELETE_link db1 ''abc123'')) ''abc123'' = []
   \<and> fst (redirect_finish hrefOf (snd (DELETE_link db1 ''abc123'')) ''abc123'' link1 99) =
       \<lparr>status = 302, body = Location ''https://example.com/''\<rparr>"
  by (simp add: redirect_lookup_def selectByCode_def db1_def link1_def DELETE_link_def
      deleteByCode_def redirect_finish_def updateClick_def hrefOf_def)

section \<open>Code validation\<close>

text \<open>
  C5. \<open>validateCode\<close> fails exactly when the code is empty or blank, shorter than 6 or
  longer than 8 characters, or has a character outside A-Z, a-z, 0-9. The message tells
  the cases apart (required, too short, too long, bad characters); every failure is the
  same kind of result, not valid with a message, and a create request answers each with
  status 400.
\<close>

theorem validateCode_spec:
  "(\<not> valid (validateCode c) \<longleftrightarrow>
      c = [] \<or> trim c = [] \<or> length c < 6 \<or> 8 < length c \<or> (\<exists>ch\<in>set c. \<not> isAlnum ch))
   \<and> error (validateCode c) =
      (if c = [] \<or> trim c = [] then Some ''Code is required''
       else if length c < 6 then Some ''Code must be at least 6 characters long''
       else if 8 < length c then Some ''Code must be at most 8 characters long''
       else if \<exists>ch\<in>set c. \<not> isAlnum ch then
         Some ''Code can only contain letters (A-Z, a-z) and numbers (0-9)''
       else None)
   \<and> (valid (validateUrl isURL url) \<and> c \<noteq> [] \<and> \<not> valid (validateCode c) \<longrightarrow>
        POST thrown isURL rnd d url (Some c) now =
          (\<lparr>status = 400, body = ErrorJson (the (error (validateCode c)))\<rparr>, d))"
proof (intro conjI)
  show "\<not> valid (validateCode c) \<longleftrightarrow>
      c = [] \<or> trim c = [] \<or> length c < 6 \<or> 8 < length c \<or> (\<exists>ch\<in>set c. \<not> isAlnum ch)"
    using blank_invalid [of c] by (auto simp: validateCode_valid_iff)
next
  show "error (validateCode c) =
      (if c = [] \<or> trim c = [] then Some ''Code is required''
       else if length c < 6 then Some ''Code must be at least 6 characters long''
       else if 8 < length c then Some ''Code must be at most 8 characters long''
       else if \<exists>ch\<in>set c. \<not> isAlnum ch then
         Some ''Code can only contain letters (A-Z, a-z) and numbers (0-9)''
       else None)"
    by (auto simp: validateCode_def codeRegex_test_def list_all_iff)
next
  show "valid (validateUrl isURL url) \<and> c \<noteq> [] \<and> \<not> valid (validateCode c) \<longrightarrow>
        POST thrown isURL rnd d url (Some c) now =
          (\<lparr>status = 400, body = ErrorJson (the (error (validateCode c)))\<rparr>, d)"
    by (simp add: POST_def POST_check_invalid_code)
qed

theorem validateCode_spec_witness:
  "error (validateCode ''ab12'') = Some ''Code must be at least 6 characters long''
   \<and> error (validateCode ''toolongcode'') = Some ''Code must be at most 8 characters long''
   \<and> error (validateCode ''abc-123'') =
       Some ''Code can only contain letters (A-Z, a-z) and numbers (0-9)''
   \<and> error (validateCode ''      '') = Some ''Code is required''
   \<and> valid (validateCode ''MyLink99'')
   \<and> POST failedQuery hasHttpScheme rnd0 db1 ''https://example.com'' (Some ''abc-123'') 99 =
       (\<lparr>status = 400,
          body = ErrorJson ''Code can only contain letters (A-Z, a-z) and numbers (0-9)''\<rparr>, db1)"
  using validateCode_spec [of "''ab12''"] validateCode_spec [of "''toolongcode''"]
    validateCode_spec [of "''abc-123''" hasHttpScheme "''https://example.com''" failedQuery rnd0 db1 99]
    validateCode_spec [of "''      ''"] validateCode_spec [of "''MyLink99''"] url_ok
  by (simp add: trim_def isWhiteSpace_def isAlnum_def)

section \<open>Generated codes\<close>

text \<open>
  C7. A generated code has exactly 6 characters, each from the alphabet, which is 62
  distinct characters of A-Z, a-z, 0-9; so has every code \<open>generateUniqueShortCode\<close>
  returns. The length is fixed, whatever the 6 to 8 accepted for custom codes.
\<close>

theorem generateShortCode_shape:
  "length (fst (generateShortCode rnd)) = 6
   \<and> (\<forall>ch\<in>set (fst (generateShortCode rnd)). ch \<in> set alphabet \<and> isAlnum ch)
   \<and> length alphabet = 62 \<and> distinct alphabet \<and> list_all isAlnum alphabet
   \<and> (generateUniqueShortCode checkExists maxAttempts rnd = Some c \<longrightarrow>
        length c = 6 \<and> (\<forall>ch\<in>set c. isAlnum ch))"
  using generateShortCode_set [of rnd] generateUniqueShortCode_shape [of checkExists maxAttempts rnd c]
  by (auto simp: generateShortCode_length generateShortCode_alnum alphabet_length
      alphabet_distinct alphabet_alnum)

theorem generateShortCode_shape_witness:
  "fst (generateShortCode rnd0) = ''DKRYfm''
   \<and> generateUniqueShortCode (\<lambda>c. selectByCode db3 c \<noteq> []) 4 rnd0 = Some ''FMTaho''
   \<and> length ''FMTaho'' = 6 \<and> list_all isAlnum ''FMTaho''"
proof -
  have g: "fst (generateShortCode rnd0) = ''DKRYfm''" by code_simp
  have u: "generateUniqueShortCode (\<lambda>c. selectByCode db3 c \<noteq> []) 4 rnd0 = Some ''FMTaho''"
    by code_simp
  from generateShortCode_shape [of rnd0 "\<lambda>c. selectByCode db3 c \<noteq> []" 4 "''FMTaho''"] g u
  show ?thesis by (simp add: list_all_iff)
qed

text \<open>
  C6. For every existence predicate and every \<open>maxAttempts\<close>, \<open>generateUniqueShortCode\<close>
  returns the first of the \<open>maxAttempts\<close> generated candidates for which the predicate is
  false, and \<^verbatim>\<open>null\<close> exactly when all of them collide. A create request without a
  custom code answers that failure with status 500 and inserts nothing.
\<close>

theorem generateUniqueShortCode_first_free:
  "generateUniqueShortCode checkExists maxAttempts rnd =
     find (\<lambda>c. \<not> checkExists c) (candidates rnd (nat maxAttempts))
   \<and> (generateUniqueShortCode checkExists maxAttempts rnd = None \<longleftrightarrow>
        (\<forall>c\<in>set (candidates rnd (nat maxAttempts)). checkExists c))
   \<and> (valid (validateUrl isURL url) \<and> \<not> truthy customCode
        \<and> generateUniqueShortCode (\<lambda>c. selectByCode d c \<noteq> []) 3 rnd = None \<longrightarrow>
        POST thrown isURL rnd d url customCode now =
          (\<lparr>status = 500,
             body = ErrorJson ''Failed to generate unique code. Please try again.''\<rparr>, d))"
proof (intro conjI)
  show "generateUniqueShortCode checkExists maxAttempts rnd =
     find (\<lambda>c. \<not> checkExists c) (candidates rnd (nat maxAttempts))"
    by (rule generateUniqueShortCode_find)
next
  show "generateUniqueShortCode checkExists maxAttempts rnd = None \<longleftrightarrow>
        (\<forall>c\<in>set (candidates rnd (nat maxAttempts)). checkExists c)"
    by (auto simp: generateUniqueShortCode_find find_None_iff)
next
  show "valid (validateUrl isURL url) \<and> \<not> truthy customCode
        \<and> generateUniqueShortCode (\<lambda>c. selectByCode d c \<noteq> []) 3 rnd = None \<longrightarrow>
        POST thrown isURL rnd d url customCode now =
          (\<lparr>status = 500,
             body = ErrorJson ''Failed to generate unique code. Please try again.''\<rparr>, d)"
    by (simp add: POST_def POST_check_def validateCreateLinkRequest_def Let_def)
qed

theorem generateUniqueShortCode_first_free_witness:
  "candidates rnd0 3 = [''DKRYfm'', ''t07ELS'', ''Zgnu18'']
   \<and> generateUniqueShortCode (\<lambda>c. c = ''DKRYfm'') 3 rnd0 = Some ''t07ELS''
   \<and> generateUniqueShortCode (\<lambda>c. selectByCode db3 c \<noteq> []) 3 rnd0 = None
   \<and> POST failedQuery hasHttpScheme rnd0 db3 ''https://example.com'' None 99 =
       (\<lparr>status = 500,
          body = ErrorJson ''Failed to generate unique code. Please try again.''\<rparr>, db3)"
proof -
  have c: "candidates rnd0 3 = [''DKRYfm'', ''t07ELS'', ''Zgnu18'']" by code_simp
  have e: "\<forall>c\<in>set [''DKRYfm'', ''t07ELS'', ''Zgnu18'']. selectByCode db3 c \<noteq> []"
    by (simp add: selectByCode_def db3_def)
  from generateUniqueShortCode_first_free [of "\<lambda>c. c = ''DKRYfm''" 3 rnd0] c
  have a: "generateUniqueShortCode (\<lambda>c. c = ''DKRYfm'') 3 rnd0 = Some ''t07ELS''" by simp
  from generateUniqueShortCode_first_free [of "\<lambda>c. selectByCode db3 c \<noteq> []" 3 rnd0
      hasHttpScheme "''https://example.com''" None db3 failedQuery 99] c e url_ok
  have "generateUniqueShortCode (\<lambda>c. selectByCode db3 c \<noteq> []) 3 rnd0 = None
    \<and> POST failedQuery hasHttpScheme rnd0 db3 ''https://example.com'' None 99 =
       (\<lparr>status = 500,
          body = ErrorJson ''Failed to generate unique code. Please try again.''\<rparr>, db3)"
    by (simp add: truthy_def)
  with c a show ?thesis by simp
qed

section \<open>Create, then get\<close>

text \<open>
  C8. A create with a custom code that is answered 201 returns the new link, and a get of
  the code right after answers 200 with the same link: the code and the target URL
  supplied, no clicks, no last click. Create is answered 201 for every valid target URL
  and valid custom code that no live link carries (the sequence not exhausted).
\<close>

theorem create_then_get:
  "(valid (validateUrl isURL url) \<and> valid (validateCode c) \<and> selectByCode d c = []
      \<and> nextId d \<le> int4_max \<longrightarrow>
      status (fst (POST thrown isURL rnd d url (Some c) now)) = 201)
   \<and> (c \<noteq> [] \<and> POST thrown isURL rnd d url (Some c) now = (r, d') \<and> status r = 201 \<longrightarrow>
        r = \<lparr>status = 201,
              body = LinkJson \<lparr>id_col = nextId d, code = c, targetUrl = url, totalClicks = 0,
                lastClickedAt = None, createdAt = ISO now\<rparr>\<rparr>
        \<and> GET_link d' c = (\<lparr>status = 200, body = body r\<rparr>, d'))"
  using POST_custom_fresh [of isURL url c d thrown rnd now]
    POST_custom_201 [of c thrown isURL rnd d url now r d']
  by blast

theorem create_then_get_witness:
  "valid (validateUrl hasHttpScheme ''https://isabelle.in.tum.de'')
   \<and> valid (validateCode ''Test01'') \<and> selectByCode db1 ''Test01'' = [] \<and> nextId db1 \<le> int4_max
   \<and> fst (POST failedQuery hasHttpScheme rnd0 db1 ''https://isabelle.in.tum.de'' (Some ''Test01'') 77) =
       \<lparr>status = 201,
          body = LinkJson \<lparr>id_col = 2, code = ''Test01'', targetUrl = ''https://isabelle.in.tum.de'',
             totalClicks = 0, lastClickedAt = None, createdAt = ISO 77\<rparr>\<rparr>
   \<and> fst (GET_link (snd (POST failedQuery hasHttpScheme rnd0 db1 ''https://isabelle.in.tum.de'' (Some ''Test01'') 77))
        ''Test01'') =
       \<lparr>status = 200,
          body = LinkJson \<lparr>id_col = 2, code = ''Test01'', targetUrl = ''https://isabelle.in.tum.de'',
             totalClicks = 0, lastClickedAt = None, createdAt = ISO 77\<rparr>\<rparr>"
proof -
  have u: "valid (validateUrl hasHttpScheme ''https://isabelle.in.tum.de'')"
    by (simp add: validateUrl_def hasHttpScheme_def trim_def isWhiteSpace_def)
  have v: "valid (validateCode ''Test01'')"
    by (simp add: validateCode_def codeRegex_test_def trim_def isWhiteSpace_def isAlnum_def)
  have s: "selectByCode db1 ''Test01'' = []"
    by (simp add: selectByCode_def db1_def link1_def)
  have n: "nextId db1 \<le> int4_max" by (simp add: db1_def int4_max_def)
  obtain r d' where p: "POST failedQuery hasHttpScheme rnd0 db1 ''https://isabelle.in.tum.de'' (Some ''Test01'') 77 = (r, d')"
    by (cases "POST failedQuery hasHttpScheme rnd0 db1 ''https://isabelle.in.tum.de'' (Some ''Test01'') 77")
  note t = create_then_get [of hasHttpScheme "''https://isabelle.in.tum.de''" "''Test01''" db1
      failedQuery rnd0 77 r d']
  from t u v s n p have st: "status r = 201" by simp
  with t p have "r = \<lparr>status = 201,
          body = LinkJson \<lparr>id_col = nextId db1, code = ''Test01'', targetUrl = ''https://isabelle.in.tum.de'',
             totalClicks = 0, lastClickedAt = None, createdAt = ISO 77\<rparr>\<rparr>
        \<and> GET_link d' ''Test01'' = (\<lparr>status = 200, body = body r\<rparr>, d')"
    by simp
  with p u v s n show ?thesis by (simp add: db1_def)
qed

section \<open>Clicks\<close>

text \<open>
  C4. A visit answered 302 found exactly one row with the code; it adds 1 to
  \<open>totalClicks\<close> of the link with that code and sets its \<open>lastClickedAt\<close> to the current
  time, and leaves every other field and every other link as they were. Whatever the
  answer, a visit leaves the table as it was or makes exactly that change (it is made
  before the redirect is built, so a visit answered 500 may have made it); a visit
  answered 404 changes nothing, and neither do the two read requests. A visit of a link
  that is present, its counter below the column's maximum and its target URL one that
  parses, is answered 302.
\<close>

theorem redirect_counts_one_click:
  "(GET_code parseURL d c now = (r, d') \<longrightarrow>
      (status r = 302 \<longrightarrow>
         (\<exists>l href. selectByCode d c = [l] \<and> parseURL (targetUrl l) = Some href
            \<and> r = \<lparr>status = 302, body = Location href\<rparr>)
         \<and> d' = d\<lparr>rows := map (\<lambda>l. if code l = c
              then l\<lparr>totalClicks := totalClicks l + 1, lastClickedAt := Some now\<rparr>
              else l) (rows d)\<rparr>)
      \<and> (status r = 404 \<longrightarrow> d' = d)
      \<and> (d' = d
           \<or> d' = d\<lparr>rows := map (\<lambda>l. if code l = c
              then l\<lparr>totalClicks := totalClicks l + 1, lastClickedAt := Some now\<rparr>
              else l) (rows d)\<rparr>))
   \<and> (selectByCode d c = [l] \<and> parseURL (targetUrl l) = Some href
        \<and> (\<forall>k\<in>set (rows d). code k = c \<longrightarrow> totalClicks k < int4_max) \<longrightarrow>
        GET_code parseURL d c now =
          (\<lparr>status = 302, body = Location href\<rparr>,
           d\<lparr>rows := map (\<lambda>l. if code l = c
              then l\<lparr>totalClicks := totalClicks l + 1, lastClickedAt := Some now\<rparr>
              else l) (rows d)\<rparr>))
   \<and> snd (GET_link d c) = d \<and> snd (GET_links scan d) = d"
proof (intro conjI impI)
  assume g: "GET_code parseURL d c now = (r, d')" and "status r = 302"
  then show "\<exists>l href. selectByCode d c = [l] \<and> parseURL (targetUrl l) = Some href
            \<and> r = \<lparr>status = 302, body = Location href\<rparr>"
    and "d' = d\<lparr>rows := map (\<lambda>l. if code l = c
              then l\<lparr>totalClicks := totalClicks l + 1, lastClickedAt := Some now\<rparr>
              else l) (rows d)\<rparr>"
    using GET_code_302 [of parseURL d c now r d'] by simp_all
next
  assume "GET_code parseURL d c now = (r, d')" and "status r = 404"
  then show "d' = d" using GET_code_404 by blast
next
  assume "GET_code parseURL d c now = (r, d')"
  then show "d' = d
           \<or> d' = d\<lparr>rows := map (\<lambda>l. if code l = c
              then l\<lparr>totalClicks := totalClicks l + 1, lastClickedAt := Some now\<rparr>
              else l) (rows d)\<rparr>"
    by (rule GET_code_frame)
next
  assume a: "selectByCode d c = [l] \<and> parseURL (targetUrl l) = Some href
        \<and> (\<forall>k\<in>set (rows d). code k = c \<longrightarrow> totalClicks k < int4_max)"
  then have "selectByCode d c = [l]"
    and "\<forall>k\<in>set (rows d). code k = c \<longrightarrow> totalClicks k < int4_max" by simp_all
  from GET_code_present [OF this, of parseURL now] a
  show "GET_code parseURL d c now =
          (\<lparr>status = 302, body = Location href\<rparr>,
           d\<lparr>rows := map (\<lambda>l. if code l = c
              then l\<lparr>totalClicks := totalClicks l + 1, lastClickedAt := Some now\<rparr>
              else l) (rows d)\<rparr>)"
    by simp
next
  show "snd (GET_link d c) = d"
    by (simp add: GET_link_def split: list.splits)
next
  show "snd (GET_links scan d) = d"
    by (simp add: GET_links_def)
qed

theorem redirect_counts_one_click_witness:
  "GET_code hrefOf db2 ''abc123'' 99 =
     (\<lparr>status = 302, body = Location ''https://example.com/''\<rparr>,
      \<lparr>rows = [\<lparr>id_col = 1, code = ''abc123'', targetUrl = ''https://example.com'',
           totalClicks = 6, lastClickedAt = Some 99, createdAt = 10\<rparr>, link2], nextId = 3\<rparr>)
   \<and> GET_code hrefOf db2 ''nosuch'' 99 = (\<lparr>status = 404, body = Text ''Not Found''\<rparr>, db2)
   \<and> GET_code hrefOf db2 ''xna001'' 99 =
       (\<lparr>status = 500, body = Text ''Internal Server Error''\<rparr>,
        \<lparr>rows = [link1, \<lparr>id_col = 2, code = ''xna001'', targetUrl = ''http://xn--a.com'',
           totalClicks = 1, lastClickedAt = Some 99, createdAt = 20\<rparr>], nextId = 3\<rparr>)"
proof -
  have s: "selectByCode db2 ''abc123'' = [link1]"
    by (simp add: selectByCode_def db2_def link1_def link2_def)
  have h: "hrefOf (targetUrl link1) = Some ''https://example.com/''"
    by (simp add: hrefOf_def link1_def)
  have m: "\<forall>k\<in>set (rows db2). code k = ''abc123'' \<longrightarrow> totalClicks k < int4_max"
    by (simp add: db2_def link1_def link2_def int4_max_def)
  note t = redirect_counts_one_click [where parseURL = hrefOf and d = db2 and c = "''abc123''"
      and now = 99 and l = link1 and href = "''https://example.com/''",
      THEN conjunct2, THEN conjunct1]
  from t s h m
  have a: "GET_code hrefOf db2 ''abc123'' 99 =
     (\<lparr>status = 302, body = Location ''https://example.com/''\<rparr>,
      \<lparr>rows = [\<lparr>id_col = 1, code = ''abc123'', targetUrl = ''https://example.com'',
           totalClicks = 6, lastClickedAt = Some 99, createdAt = 10\<rparr>, link2], nextId = 3\<rparr>)"
    by (simp add: db2_def link1_def link2_def)
  have n: "GET_code hrefOf db2 ''nosuch'' 99 = (\<lparr>status = 404, body = Text ''Not Found''\<rparr>, db2)"
    by code_simp
  have x: "GET_code hrefOf db2 ''xna001'' 99 =
       (\<lparr>status = 500, body = Text ''Internal Server Error''\<rparr>,
        \<lparr>rows = [link1, \<lparr>id_col = 2, code = ''xna001'', targetUrl = ''http://xn--a.com'',
           totalClicks = 1, lastClickedAt = Some 99, createdAt = 20\<rparr>], nextId = 3\<rparr>)"
    by code_simp
  from a n x show ?thesis by simp
qed

text \<open>
  C2. \<open>n\<close> visits of the same code run at once, their statements interleaved in any order.
  The counter of the link grows by exactly the number of visits whose update was made.
  Every visit answered with a redirect is one of them, so when all \<open>n\<close> are redirected the
  counter grows by exactly \<open>n\<close>. No update is lost because the update does not write a
  count computed from the row its own select read: the table after the update is the same
  whatever that row was.
\<close>

theorem concurrent_visits_count:
  "(run parseURL c es (d, replicate n Pending) = (d', vs) \<longrightarrow>
      length vs = n
      \<and> totalClicksOf d' c = totalClicksOf d c + int (length (filter counted vs))
      \<and> (\<forall>v\<in>set vs. redirected v \<longrightarrow> counted v)
      \<and> (list_all redirected vs \<longrightarrow> totalClicksOf d' c = totalClicksOf d c + int n))
   \<and> snd (redirect_finish parseURL d c l now) = snd (redirect_finish parseURL d c l' now)"
proof (intro conjI impI)
  assume r: "run parseURL c es (d, replicate n Pending) = (d', vs)"
  have z: "filter counted (replicate n Pending) = []"
    by (simp add: counted_def)
  have y: "\<forall>v\<in>set (replicate n Pending). redirected v \<longrightarrow> counted v"
    by (simp add: redirected_def)
  have i: "totalClicksOf d' c = totalClicksOf d c + int (length (filter counted vs))
        \<and> (\<forall>v\<in>set vs. redirected v \<longrightarrow> counted v)
        \<and> length vs = length (replicate n Pending)"
    by (rule run_inv [OF _ _ y r]) (simp_all add: z)
  then show "length vs = n"
    and t: "totalClicksOf d' c = totalClicksOf d c + int (length (filter counted vs))"
    and q: "\<forall>v\<in>set vs. redirected v \<longrightarrow> counted v"
    by simp_all
  assume "list_all redirected vs"
  with q have "filter counted vs = vs" by (simp add: list_all_iff)
  with t \<open>length vs = n\<close> show "totalClicksOf d' c = totalClicksOf d c + int n" by simp
next
  show "snd (redirect_finish parseURL d c l now) = snd (redirect_finish parseURL d c l' now)"
    by (rule redirect_finish_snapshot)
qed

theorem concurrent_visits_count_witness:
  "run hrefOf ''abc123'' [Lookup 0, Lookup 1, Finish 1 61, Lookup 2, Finish 0 62, Finish 2 63]
     (db1, replicate 3 Pending) =
     (\<lparr>rows = [\<lparr>id_col = 1, code = ''abc123'', targetUrl = ''https://example.com'',
          totalClicks = 8, lastClickedAt = Some 63, createdAt = 10\<rparr>], nextId = 2\<rparr>,
      replicate 3 (Done True \<lparr>status = 302, body = Location ''https://example.com/''\<rparr>))
   \<and> totalClicksOf db1 ''abc123'' = 5
   \<and> totalClicksOf
        (fst (run hrefOf ''abc123''
           [Lookup 0, Lookup 1, Finish 1 61, Lookup 2, Finish 0 62, Finish 2 63]
           (db1, replicate 3 Pending))) ''abc123'' = 5 + int 3
   \<and> run hrefOf ''xna001'' [Lookup 0, Lookup 1, Finish 1 61, Finish 0 62]
        (db2, replicate 2 Pending) =
       (\<lparr>rows = [link1, \<lparr>id_col = 2, code = ''xna001'', targetUrl = ''http://xn--a.com'',
            totalClicks = 2, lastClickedAt = Some 62, createdAt = 20\<rparr>], nextId = 3\<rparr>,
        replicate 2 (Done True \<lparr>status = 500, body = Text ''Internal Server Error''\<rparr>))"
proof -
  let ?es = "[Lookup 0, Lookup 1, Finish 1 61, Lookup 2, Finish 0 62, Finish 2 63]"
  let ?d = "\<lparr>rows = [\<lparr>id_col = 1, code = ''abc123'', targetUrl = ''https://example.com'',
          totalClicks = 8, lastClickedAt = Some 63, createdAt = 10\<rparr>], nextId = 2\<rparr>"
  let ?vs = "replicate 3 (Done True \<lparr>status = 302, body = Location ''https://example.com/''\<rparr>)"
  have r: "run hrefOf ''abc123'' ?es (db1, replicate 3 Pending) = (?d, ?vs)"
    by code_simp
  have a: "list_all redirected ?vs" by (simp add: redirected_def list_all_iff)
  have b: "totalClicksOf db1 ''abc123'' = 5"
    by (simp add: totalClicksOf_def selectByCode_def db1_def link1_def)
  note t = concurrent_visits_count [of hrefOf "''abc123''" ?es db1 3 ?d ?vs,
      THEN conjunct1, THEN mp, OF r]
  from t [THEN conjunct2, THEN conjunct2, THEN conjunct2, THEN mp, OF a] b
  have "totalClicksOf ?d ''abc123'' = 5 + int 3" by simp
  moreover have "run hrefOf ''xna001'' [Lookup 0, Lookup 1, Finish 1 61, Finish 0 62]
        (db2, replicate 2 Pending) =
       (\<lparr>rows = [link1, \<lparr>id_col = 2, code = ''xna001'', targetUrl = ''http://xn--a.com'',
            totalClicks = 2, lastClickedAt = Some 62, createdAt = 20\<rparr>], nextId = 3\<rparr>,
        replicate 2 (Done True \<lparr>status = 500, body = Text ''Internal Server Error''\<rparr>))"
    by code_simp
  ultimately show ?thesis using r b by simp
qed

section \<open>Uniqueness of codes\<close>



section \<open>Listing\<close>

text \<open>
  C9. The list request answers 200 and changes nothing. Its body is the list of all the
  rows of the table, each once, in ascending order of \<open>createdAt\<close> (rows created at the
  same time in the order of the engine's scan): entry by entry the id, the code, the
  target URL and the count of the row, and its two time stamps as ISO text.
\<close>

theorem list_sorted_by_createdAt:
  "GET_links scan d =
     (\<lparr>status = 200,
        body = LinksJson
          (map (\<lambda>l. \<lparr>id_col = id_col l, code = code l, targetUrl = targetUrl l,
                   totalClicks = totalClicks l,
                   lastClickedAt = map_option ISO (lastClickedAt l),
                   createdAt = ISO (createdAt l)\<rparr>)
             (selectOrderByCreatedAt scan d))\<rparr>, d)
   \<and> mset (selectOrderByCreatedAt scan d) = mset (rows d)
   \<and> sorted (map createdAt (selectOrderByCreatedAt scan d))"
proof (intro conjI)
  have "serializeLink = (\<lambda>l. \<lparr>id_col = id_col l, code = code l, targetUrl = targetUrl l,
                   totalClicks = totalClicks l,
                   lastClickedAt = map_option ISO (lastClickedAt l),
                   createdAt = ISO (createdAt l)\<rparr>)"
    by (auto simp: fun_eq_iff serializeLink_def split: option.splits)
  then show "GET_links scan d =
     (\<lparr>status = 200,
        body = LinksJson
          (map (\<lambda>l. \<lparr>id_col = id_col l, code = code l, targetUrl = targetUrl l,
                   totalClicks = totalClicks l,
                   lastClickedAt = map_option ISO (lastClickedAt l),
                   createdAt = ISO (createdAt l)\<rparr>)
             (selectOrderByCreatedAt scan d))\<rparr>, d)"
    by (simp add: GET_links_def serializeLinks_def)
next
  show "mset (selectOrderByCreatedAt scan d) = mset (rows d)"
    by (simp add: selectOrderByCreatedAt_def)
next
  show "sorted (map createdAt (selectOrderByCreatedAt scan d))"
    by (simp add: selectOrderByCreatedAt_def)
qed

theorem list_sorted_by_createdAt_witness:
  "GET_links byId db4 =
     (\<lparr>status = 200,
        body = LinksJson
          [\<lparr>id_col = 2, code = ''first1'', targetUrl = ''https://b.example'', totalClicks = 0,
              lastClickedAt = None, createdAt = ISO 10\<rparr>,
           \<lparr>id_col = 3, code = ''first2'', targetUrl = ''https://c.example'', totalClicks = 0,
              lastClickedAt = None, createdAt = ISO 10\<rparr>,
           \<lparr>id_col = 1, code = ''latest'', targetUrl = ''https://a.example'', totalClicks = 2,
              lastClickedAt = Some (ISO 35), createdAt = ISO 30\<rparr>]\<rparr>, db4)"
proof -
  have s: "selectOrderByCreatedAt byId db4 =
     [\<lparr>id_col = 2, code = ''first1'', targetUrl = ''https://b.example'', totalClicks = 0,
         lastClickedAt = None, createdAt = 10\<rparr>,
      \<lparr>id_col = 3, code = ''first2'', targetUrl = ''https://c.example'', totalClicks = 0,
         lastClickedAt = None, createdAt = 10\<rparr>,
      \<lparr>id_col = 1, code = ''latest'', targetUrl = ''https://a.example'', totalClicks = 2,
         lastClickedAt = Some 35, createdAt = 30\<rparr>]"
    by code_simp
  from list_sorted_by_createdAt [of byId db4, THEN conjunct1] s show ?thesis by simp
qed

section \<open>The empty custom code\<close>

text \<open>
  C10. A create request whose custom code is the empty string is the request without a
  custom code: the validation is the validation of the URL alone, the answer and the table
  afterwards are the same. When it is answered 201 the table has one more link, whose code
  is the generated one: 6 characters of A-Z, a-z, 0-9, carried by no link before; otherwise
  the rows are unchanged. It is answered 201 whenever the URL is valid, one of the three
  candidates is free and the sequence is not exhausted.
\<close>

theorem empty_customCode_as_absent:
  "validateCreateLinkRequest isURL url (Some []) = validateCreateLinkRequest isURL url None
   \<and> valid (validateCreateLinkRequest isURL url (Some [])) = valid (validateUrl isURL url)
   \<and> POST thrown isURL rnd d url (Some []) now = POST thrown isURL rnd d url None now
   \<and> (POST thrown isURL rnd d url (Some []) now = (r, d') \<longrightarrow>
        (if status r = 201 then
           \<exists>l. r = \<lparr>status = 201, body = LinkJson (serializeLink l)\<rparr>
             \<and> rows d' = rows d @ [l]
             \<and> generateUniqueShortCode (\<lambda>c. selectByCode d c \<noteq> []) 3 rnd = Some (code l)
             \<and> length (code l) = 6 \<and> list_all isAlnum (code l)
             \<and> selectByCode d (code l) = [] \<and> targetUrl l = url
         else rows d' = rows d))
   \<and> (valid (validateUrl isURL url) \<and> nextId d \<le> int4_max
        \<and> generateUniqueShortCode (\<lambda>c. selectByCode d c \<noteq> []) 3 rnd \<noteq> None \<longrightarrow>
        status (fst (POST thrown isURL rnd d url (Some []) now)) = 201)"
proof (intro conjI impI)
  show "validateCreateLinkRequest isURL url (Some []) = validateCreateLinkRequest isURL url None"
    by (simp add: validateCreate_none)
next
  show "valid (validateCreateLinkRequest isURL url (Some [])) = valid (validateUrl isURL url)"
    by (simp add: validateCreate_empty)
next
  show "POST thrown isURL rnd d url (Some []) now = POST thrown isURL rnd d url None now"
    by (rule POST_none_empty)
next
  assume p: "POST thrown isURL rnd d url (Some []) now = (r, d')"
  have t: "\<not> truthy (Some [])" by (simp add: truthy_def)
  show "if status r = 201 then
           \<exists>l. r = \<lparr>status = 201, body = LinkJson (serializeLink l)\<rparr>
             \<and> rows d' = rows d @ [l]
             \<and> generateUniqueShortCode (\<lambda>c. selectByCode d c \<noteq> []) 3 rnd = Some (code l)
             \<and> length (code l) = 6 \<and> list_all isAlnum (code l)
             \<and> selectByCode d (code l) = [] \<and> targetUrl l = url
         else rows d' = rows d"
  proof (cases "status r = 201")
    case True
    from POST_generated_201 [OF t p True] obtain l where
      l: "r = \<lparr>status = 201, body = LinkJson (serializeLink l)\<rparr>"
        "d' = \<lparr>rows = rows d @ [l], nextId = nextId d + 1\<rparr>"
        "l = \<lparr>id_col = nextId d, code = code l, targetUrl = url, totalClicks = 0,
                  lastClickedAt = None, createdAt = now\<rparr>"
        "generateUniqueShortCode (\<lambda>c. selectByCode d c \<noteq> []) 3 rnd = Some (code l)"
        "length (code l) = 6" "list_all isAlnum (code l)" "selectByCode d (code l) = []"
      by blast
    from l(3) have "targetUrl l = url" by (metis link.select_convs(3))
    with l True show ?thesis by auto
  next
    case False
    with POST_generated_not_201 [OF t p] show ?thesis by simp
  qed
next
  assume a: "valid (validateUrl isURL url) \<and> nextId d \<le> int4_max
        \<and> generateUniqueShortCode (\<lambda>c. selectByCode d c \<noteq> []) 3 rnd \<noteq> None"
  then obtain g where "generateUniqueShortCode (\<lambda>c. selectByCode d c \<noteq> []) 3 rnd = Some g"
    by auto
  with a show "status (fst (POST thrown isURL rnd d url (Some []) now)) = 201"
    by (intro POST_generated_ok) (simp_all add: truthy_def)
qed

theorem empty_customCode_as_absent_witness:
  "validateCreateLinkRequest hasHttpScheme ''https://example.com'' (Some []) =
     \<lparr>valid = True, error = None\<rparr>
   \<and> POST failedQuery hasHttpScheme rnd0 db1 ''https://example.com'' None 99 =
       POST failedQuery hasHttpScheme rnd0 db1 ''https://example.com'' (Some []) 99
   \<and> POST failedQuery hasHttpScheme rnd0 db1 ''https://example.com'' (Some []) 99 =
       (\<lparr>status = 201,
          body = LinkJson \<lparr>id_col = 2, code = ''DKRYfm'', targetUrl = ''https://example.com'',
             totalClicks = 0, lastClickedAt = None, createdAt = ISO 99\<rparr>\<rparr>,
        \<lparr>rows = [link1, \<lparr>id_col = 2, code = ''DKRYfm'', targetUrl = ''https://example.com'',
             totalClicks = 0, lastClickedAt = None, createdAt = 99\<rparr>], nextId = 3\<rparr>)
   \<and> length ''DKRYfm'' = 6"
proof -
  have v: "validateCreateLinkRequest hasHttpScheme ''https://example.com'' (Some []) =
     \<lparr>valid = True, error = None\<rparr>"
    using url_ok by (simp add: validateCreateLinkRequest_def truthy_def)
  have g: "generateUniqueShortCode (\<lambda>c. selectByCode db1 c \<noteq> []) 3 rnd0 = Some ''DKRYfm''"
    by code_simp
  have n: "nextId db1 \<le> int4_max" by (simp add: db1_def int4_max_def)
  obtain r d' where p: "POST failedQuery hasHttpScheme rnd0 db1 ''https://example.com'' (Some []) 99 = (r, d')"
    by (cases "POST failedQuery hasHttpScheme rnd0 db1 ''https://example.com'' (Some []) 99")
  note t = empty_customCode_as_absent [of hasHttpScheme "''https://example.com''" failedQuery rnd0
      db1 99 r d']
  from t p g n url_ok have s: "status r = 201" by simp
  have e: "POST failedQuery hasHttpScheme rnd0 db1 ''https://example.com'' (Some []) 99 =
       (\<lparr>status = 201,
          body = LinkJson \<lparr>id_col = 2, code = ''DKRYfm'', targetUrl = ''https://example.com'',
             totalClicks = 0, lastClickedAt = None, createdAt = ISO 99\<rparr>\<rparr>,
        \<lparr>rows = [link1, \<lparr>id_col = 2, code = ''DKRYfm'', targetUrl = ''https://example.com'',
             totalClicks = 0, lastClickedAt = None, createdAt = 99\<rparr>], nextId = 3\<rparr>)"
    by code_simp
  from t v e show ?thesis by simp
qed

end
